theory Spec2Isabelle
  imports Main "HOL-Library.Sublist"
begin

section \<open>Promises, runtime events and observable actions\<close>

text \<open>
  The program is event driven: it registers callbacks on a socket, on a timer and on the
  codec, and the runtime calls them later. The embedding makes that explicit. A run of one
  operation is the state reached by folding the callbacks over the list of events the runtime
  delivers, in delivery order; each event is one turn of the event loop, and the promise
  continuations woken by a callback run to completion inside that turn.

  Strings are byte lists (a script is taken as its UTF-8 bytes), so \<open>Buffer.from(code, 'utf8')\<close>
  is the identity.
\<close>

datatype 'a promise = Pending | Fulfilled 'a | Rejected string

text \<open>Resolving or rejecting a promise that is already settled has no effect.\<close>

definition settle :: "'a promise \<Rightarrow> 'a promise \<Rightarrow> 'a promise" where
  "settle p outcome = (case p of Pending \<Rightarrow> outcome | Fulfilled v \<Rightarrow> Fulfilled v | Rejected e \<Rightarrow> Rejected e)"

datatype sock_event = SockConnect | SockError string | SockTimeout

datatype event = Sock sock_event | RaceTimer | DeflateDone | WriteCallback

datatype action =
    SocketConnect string string
  | SocketSetTimeout nat
  | SocketWrite string
  | SocketEnd
  | SocketDestroy
  | Compress string
  | SetTimer nat
  | ConsoleLog string
  | ConsoleError string
  | Resolve string
  | ResolveBool bool

definition startsWith :: "string \<Rightarrow> string \<Rightarrow> bool" where
  "startsWith s p = prefix p s"

text \<open>Decimal rendering of a number inside a template literal.\<close>

definition digit :: "nat \<Rightarrow> char" where
  "digit d = ''0123456789'' ! (d mod 10)"

function show_nat :: "nat \<Rightarrow> string" where
  "show_nat n = (if n < 10 then [digit n] else show_nat (n div 10) @ [digit (n mod 10)])"
  by pat_completeness auto
termination
  by (relation "measure (\<lambda>n. n)") auto

section \<open>The candidate ports\<close>

definition PORTS :: "string list" where
  "PORTS = [''8392'', ''8393'', ''8394'', ''8395'', ''8396'', ''8397'']"

section \<open>compressData\<close>

text \<open>
  \<open>zlib.deflate\<close> is a library function: it is a parameter \<open>deflate\<close> of the model, giving
  either the compressed bytes (\<open>Inr\<close>) or the message of the error it reports (\<open>Inl\<close>).
  \<open>compressData\<close> passes the bytes through and wraps the error message.
\<close>

type_synonym codec = "string \<Rightarrow> string + string"

definition compression_failed :: "string \<Rightarrow> string" where
  "compression_failed message = ''Compression failed: '' @ message"

definition compressData :: "codec \<Rightarrow> string \<Rightarrow> string + string" where
  "compressData deflate data =
     (case deflate data of
        Inr compressed \<Rightarrow> Inr compressed
      | Inl message \<Rightarrow> Inl (compression_failed message))"

section \<open>promiseTimeout\<close>

text \<open>
  The state of one call: whether the timer set by \<open>setTimeout\<close> is still in the runtime's
  timer list, the \<open>timeout\<close> promise, and the promise returned by \<open>Promise.race\<close>. The raced
  promise starts as the operation's promise, which covers an operation that has settled
  before the call.
\<close>

record 'a timeout_race =
  timer_pending :: bool
  budget :: nat
  timeout_message :: string
  timeout_side :: "'a promise"
  raced :: "'a promise"

definition promiseTimeout :: "'a promise \<Rightarrow> nat \<Rightarrow> string \<Rightarrow> 'a timeout_race" where
  "promiseTimeout promise ms errorMessage =
     \<lparr>timer_pending = True, budget = ms, timeout_message = errorMessage,
      timeout_side = Pending, raced = promise\<rparr>"

text \<open>The wrapped operation settles: only the race sees it; nothing touches the timer.\<close>

definition operation_settles :: "'a promise \<Rightarrow> 'a timeout_race \<Rightarrow> 'a timeout_race" where
  "operation_settles outcome r = r\<lparr>raced := settle (raced r) outcome\<rparr>"

text \<open>
  The timer callback: \<open>clearTimeout(id)\<close> on the timer that is firing (it leaves the timer
  list by firing), then \<open>reject(new Error(errorMessage))\<close>.
\<close>

definition timer_fires :: "'a timeout_race \<Rightarrow> 'a timeout_race" where
  "timer_fires r =
     (if timer_pending r
      then r\<lparr>timer_pending := False,
             timeout_side := settle (timeout_side r) (Rejected (timeout_message r)),
             raced := settle (raced r) (Rejected (timeout_message r))\<rparr>
      else r)"

datatype 'a race_event = OperationSettles "'a promise" | TimerFires

fun race_step :: "'a timeout_race \<Rightarrow> 'a race_event \<Rightarrow> 'a timeout_race" where
  "race_step r (OperationSettles outcome) = operation_settles outcome r"
| "race_step r TimerFires = timer_fires r"

section \<open>connectAndSendInternal\<close>

text \<open>
  \<open>code\<close> is \<open>None\<close> when the caller passes no value (undefined or null) and \<open>Some s\<close> for the
  string \<open>s\<close>; it is truthy when it is a non-empty string.
\<close>

datatype phase = AwaitConnect | AwaitDeflate string | AwaitWrite string | Done

record session =
  phase :: phase
  connecting :: "unit promise"
  race :: "unit timeout_race"
  connect_cb :: bool
  listening :: bool
  result :: "string promise"
  trace :: "action list"

definition timeoutMs :: nat where
  "timeoutMs = 3000"

definition failure_report :: "string \<Rightarrow> string \<Rightarrow> string" where
  "failure_report port message = ''Failed to connect or send on port '' @ port @ '': '' @ message"

definition no_script_report :: "string \<Rightarrow> string" where
  "no_script_report port = ''Successfully connected to Opiumware on port: '' @ port @ '' (no script sent)''"

definition executed_report :: "string \<Rightarrow> string" where
  "executed_report port = ''Successfully executed script on port: '' @ port"

definition connected_log :: "string \<Rightarrow> string" where
  "connected_log port = ''Successfully connected to Opiumware on port: '' @ port"

definition sent_log :: "string \<Rightarrow> string \<Rightarrow> string" where
  "sent_log port compressed =
     ''Script sent to port '' @ port @ '' ('' @ show_nat (length compressed) @ '' bytes)''"

text \<open>The \<open>catch\<close> block.\<close>

definition catch_error :: "string \<Rightarrow> string \<Rightarrow> session \<Rightarrow> session" where
  "catch_error port message s =
     s\<lparr>phase := Done,
       result := settle (result s) (Fulfilled (failure_report port message)),
       trace := trace s @ [SocketDestroy, ConsoleError (failure_report port message),
                           Resolve (failure_report port message)]\<rparr>"

text \<open>The \<open>else\<close> branch after the connect: close, report that no script was sent.\<close>

definition no_script :: "string \<Rightarrow> session \<Rightarrow> session" where
  "no_script port s =
     s\<lparr>phase := Done,
       result := settle (result s) (Fulfilled (no_script_report port)),
       trace := trace s @ [SocketEnd, Resolve (no_script_report port)]\<rparr>"

text \<open>The code after \<open>await promiseTimeout(...)\<close>, up to the next suspension.\<close>

definition after_connect :: "string option \<Rightarrow> string \<Rightarrow> session \<Rightarrow> session" where
  "after_connect code port s =
     (case code of
        None \<Rightarrow> no_script port s
      | Some c \<Rightarrow>
          if c \<noteq> [] \<and> c \<noteq> ''NULL''
          then s\<lparr>phase := AwaitDeflate c, trace := trace s @ [Compress c]\<rparr>
          else no_script port s)"

text \<open>The continuation of the \<open>await\<close> on the raced promise, run when the race has settled.\<close>

definition resume :: "string option \<Rightarrow> string \<Rightarrow> session \<Rightarrow> session" where
  "resume code port s =
     (case phase s of
        AwaitConnect \<Rightarrow>
          (case raced (race s) of
             Pending \<Rightarrow> s
           | Fulfilled u \<Rightarrow> after_connect code port s
           | Rejected message \<Rightarrow> catch_error port message s)
      | AwaitDeflate d \<Rightarrow> s
      | AwaitWrite c \<Rightarrow> s
      | Done \<Rightarrow> s)"

text \<open>\<open>res()\<close> and \<open>rej(err)\<close> of the promise that wraps the connect.\<close>

definition settle_connecting :: "unit promise \<Rightarrow> session \<Rightarrow> session" where
  "settle_connecting outcome s =
     (case connecting s of
        Pending \<Rightarrow> s\<lparr>connecting := outcome, race := operation_settles outcome (race s)\<rparr>
      | Fulfilled u \<Rightarrow> s
      | Rejected e \<Rightarrow> s)"

definition socket_timeout_message :: "string \<Rightarrow> string" where
  "socket_timeout_message port = ''Connection attempt to port '' @ port @ '' timed out.''"

definition race_timeout_message :: "string \<Rightarrow> string" where
  "race_timeout_message port = ''Connection to port '' @ port @ '' timed out''"

text \<open>
  One turn of the event loop. The connect callback is a one-shot listener; the error and
  timeout handlers stay registered. The deflate and write callbacks run only when the call
  they belong to is outstanding. The write callback takes no notice of its error argument.
\<close>

definition on_event :: "codec \<Rightarrow> string option \<Rightarrow> string \<Rightarrow> session \<Rightarrow> event \<Rightarrow> session" where
  "on_event deflate code port s ev =
     (case ev of
        Sock SockConnect \<Rightarrow>
          if connect_cb s
          then resume code port
                 (settle_connecting (Fulfilled ())
                    (s\<lparr>connect_cb := False,
                       trace := trace s @ [ConsoleLog (connected_log port)]\<rparr>))
          else s
      | Sock (SockError message) \<Rightarrow>
          if listening s
          then resume code port
                 (settle_connecting (Rejected message) (s\<lparr>trace := trace s @ [SocketDestroy]\<rparr>))
          else s
      | Sock SockTimeout \<Rightarrow>
          if listening s
          then resume code port
                 (settle_connecting (Rejected (socket_timeout_message port))
                    (s\<lparr>trace := trace s @ [SocketDestroy]\<rparr>))
          else s
      | RaceTimer \<Rightarrow> resume code port (s\<lparr>race := timer_fires (race s)\<rparr>)
      | DeflateDone \<Rightarrow>
          (case phase s of
             AwaitDeflate data \<Rightarrow>
               (case compressData deflate data of
                  Inr compressed \<Rightarrow>
                    s\<lparr>phase := AwaitWrite compressed, trace := trace s @ [SocketWrite compressed]\<rparr>
                | Inl message \<Rightarrow>
                    catch_error port message (s\<lparr>trace := trace s @ [ConsoleError message]\<rparr>))
           | AwaitConnect \<Rightarrow> s
           | AwaitWrite c \<Rightarrow> s
           | Done \<Rightarrow> s)
      | WriteCallback \<Rightarrow>
          (case phase s of
             AwaitWrite compressed \<Rightarrow>
               s\<lparr>phase := Done,
                 result := settle (result s) (Fulfilled (executed_report port)),
                 trace := trace s @
                   [ConsoleLog (sent_log port compressed), SocketEnd, Resolve (executed_report port)]\<rparr>
           | AwaitConnect \<Rightarrow> s
           | AwaitDeflate d \<Rightarrow> s
           | Done \<Rightarrow> s))"

text \<open>
  The synchronous part of the call, up to the first suspension. \<open>throws\<close> is the message of
  the exception \<open>client.connect\<close> raises at once, if it raises one (the runtime refuses a
  port number above 65535 that way): the executor stops there, the connect promise is
  rejected, and the handlers and the socket timeout that follow are never set up.
\<close>

definition begin_session :: "string option \<Rightarrow> string \<Rightarrow> string option \<Rightarrow> session" where
  "begin_session code port throws =
     (case throws of
        None \<Rightarrow>
          \<lparr>phase = AwaitConnect, connecting = Pending,
           race = promiseTimeout Pending timeoutMs (race_timeout_message port),
           connect_cb = True, listening = True, result = Pending,
           trace = [SocketConnect port ''127.0.0.1'', SocketSetTimeout timeoutMs, SetTimer timeoutMs]\<rparr>
      | Some message \<Rightarrow>
          resume code port
            \<lparr>phase = AwaitConnect, connecting = Rejected message,
             race = promiseTimeout (Rejected message) timeoutMs (race_timeout_message port),
             connect_cb = False, listening = False, result = Pending,
             trace = [SocketConnect port ''127.0.0.1'', SetTimer timeoutMs]\<rparr>)"

definition connectAndSendInternal ::
  "codec \<Rightarrow> string option \<Rightarrow> string \<Rightarrow> string option \<Rightarrow> event list \<Rightarrow> session" where
  "connectAndSendInternal deflate code port throws evs =
     foldl (on_event deflate code port) (begin_session code port throws) evs"

section \<open>check-port-status\<close>

record probe =
  on_connect :: bool
  on_error :: bool
  on_timeout :: bool
  answer :: "bool promise"
  probe_trace :: "action list"

definition probe_settle :: "bool \<Rightarrow> probe \<Rightarrow> probe" where
  "probe_settle b p =
     p\<lparr>answer := settle (answer p) (Fulfilled b),
       probe_trace := probe_trace p @ [SocketDestroy, ResolveBool b]\<rparr>"

text \<open>Each handler is registered with \<open>once\<close>: it is removed when it runs.\<close>

definition probe_event :: "probe \<Rightarrow> sock_event \<Rightarrow> probe" where
  "probe_event p ev =
     (case ev of
        SockConnect \<Rightarrow> if on_connect p then probe_settle True (p\<lparr>on_connect := False\<rparr>) else p
      | SockError message \<Rightarrow> if on_error p then probe_settle False (p\<lparr>on_error := False\<rparr>) else p
      | SockTimeout \<Rightarrow> if on_timeout p then probe_settle False (p\<lparr>on_timeout := False\<rparr>) else p)"

text \<open>
  The executor registers the three handlers and then calls \<open>client.connect\<close>. If that call
  raises, the executor is left by the exception: the promise is rejected with it and
  \<open>client.setTimeout\<close> is not reached.
\<close>

definition begin_probe :: "string \<Rightarrow> string option \<Rightarrow> probe" where
  "begin_probe port throws =
     (case throws of
        None \<Rightarrow>
          \<lparr>on_connect = True, on_error = True, on_timeout = True, answer = Pending,
           probe_trace = [SocketConnect port ''127.0.0.1'', SocketSetTimeout 1000]\<rparr>
      | Some message \<Rightarrow>
          \<lparr>on_connect = True, on_error = True, on_timeout = True, answer = Rejected message,
           probe_trace = [SocketConnect port ''127.0.0.1'']\<rparr>)"

definition check_port_status :: "string \<Rightarrow> string option \<Rightarrow> sock_event list \<Rightarrow> probe" where
  "check_port_status port throws evs = foldl probe_event (begin_probe port throws) evs"

section \<open>auto-attach\<close>

text \<open>
  The loop over the ports. \<open>send code port\<close> is the promise the awaited call ends with.
  The result is the list of calls made, in order, and the value returned: \<open>None\<close> when an
  awaited promise stays pending, so that the handler never returns.
\<close>

fun auto_attach_loop ::
  "(string \<Rightarrow> string \<Rightarrow> string promise) \<Rightarrow> string list \<Rightarrow> (string \<times> string) list \<times> string option" where
  "auto_attach_loop send [] = ([], Some ''Failed to connect on all ports'')"
| "auto_attach_loop send (port # ports) =
     (case send ''NULL'' port of
        Pending \<Rightarrow> ([(''NULL'', port)], None)
      | Fulfilled r \<Rightarrow>
          if startsWith r ''Successfully connected''
          then ([(''NULL'', port)], Some port)
          else (case auto_attach_loop send ports of
                  (calls, returned) \<Rightarrow> ((''NULL'', port) # calls, returned))
      | Rejected e \<Rightarrow>
          (case auto_attach_loop send ports of
             (calls, returned) \<Rightarrow> ((''NULL'', port) # calls, returned)))"

text \<open>
  The runtime's side of one attempt on a port: what \<open>client.connect\<close> does at once, and the
  events delivered afterwards.
\<close>

type_synonym runtime = "string \<Rightarrow> string option \<times> event list"

definition auto_attach :: "codec \<Rightarrow> runtime \<Rightarrow> (string \<times> string) list \<times> string option" where
  "auto_attach deflate rt =
     auto_attach_loop
       (\<lambda>code port. result (connectAndSendInternal deflate (Some code) port (fst (rt port)) (snd (rt port))))
       PORTS"

section \<open>Predicates used in the proofs\<close>

text \<open>
  What holds of every state a send reaches: while it waits for the connect nothing has
  settled and all callbacks are in place; it is over exactly when its promise is no longer
  pending; its promise is never rejected; and an outstanding write is a write that was made.
\<close>

definition session_inv :: "session \<Rightarrow> bool" where
  "session_inv s \<longleftrightarrow>
     (phase s = AwaitConnect \<longrightarrow>
        raced (race s) = Pending \<and> connecting s = Pending \<and> timer_pending (race s) \<and>
        listening s \<and> connect_cb s) \<and>
     ((phase s = Done) = (result s \<noteq> Pending)) \<and>
     (\<forall>e. result s \<noteq> Rejected e) \<and>
     (\<forall>c. phase s = AwaitWrite c \<longrightarrow> SocketWrite c \<in> set (trace s))"

text \<open>
  The test \<open>code && code !== "NULL"\<close>.
\<close>

definition has_payload :: "string option \<Rightarrow> bool" where
  "has_payload code = (case code of None \<Rightarrow> False | Some c \<Rightarrow> c \<noteq> [] \<and> c \<noteq> ''NULL'')"

text \<open>
  The actions that hand data to the codec or to the socket.
\<close>

fun transfers :: "action \<Rightarrow> bool" where
  "transfers (SocketWrite c) = True"
| "transfers (Compress c) = True"
| "transfers a = False"

text \<open>
  Every resolution with a report that starts with \<open>Failed\<close> comes after a destruction of the
  socket; the flag says whether one has been seen.
\<close>

fun failure_after_destroy :: "bool \<Rightarrow> action list \<Rightarrow> bool" where
  "failure_after_destroy d [] = True"
| "failure_after_destroy d (SocketDestroy # as) = failure_after_destroy True as"
| "failure_after_destroy d (Resolve r # as) =
     ((startsWith r ''Failed'' \<longrightarrow> d) \<and> failure_after_destroy d as)"
| "failure_after_destroy d (a # as) = failure_after_destroy d as"

text \<open>
  The states a send without payload can be in.
\<close>

definition silent :: "string \<Rightarrow> session \<Rightarrow> bool" where
  "silent port s \<longleftrightarrow>
     (phase s = AwaitConnect \<or> phase s = Done) \<and>
     (\<forall>a \<in> set (trace s). \<not> transfers a) \<and>
     (result s = Pending \<or> result s = Fulfilled (no_script_report port) \<or>
      (\<exists>m. result s = Fulfilled (failure_report port m)))"

text \<open>
  The states a send can be in while no connect event has been delivered.
\<close>

definition unconnected :: "string \<Rightarrow> session \<Rightarrow> bool" where
  "unconnected port s \<longleftrightarrow>
     (phase s = AwaitConnect \<or> phase s = Done) \<and>
     (\<forall>a \<in> set (trace s). \<not> transfers a \<and> a \<noteq> SocketEnd) \<and>
     (result s = Pending \<or> (\<exists>m. result s = Fulfilled (failure_report port m)))"

text \<open>
  The event with the message of an error removed.
\<close>

definition forget_cause :: "sock_event \<Rightarrow> sock_event" where
  "forget_cause ev = (case ev of SockConnect \<Rightarrow> SockConnect | SockError m \<Rightarrow> SockError [] | SockTimeout \<Rightarrow> SockTimeout)"

text \<open>
  A non-empty string of decimal digits.
\<close>

definition port_string :: "string \<Rightarrow> bool" where
  "port_string s \<longleftrightarrow> s \<noteq> [] \<and> list_all (\<lambda>c. c \<in> set ''0123456789'') s"

text \<open>
  The promise of the send that the scan makes on a port.
\<close>

definition attempt :: "codec \<Rightarrow> runtime \<Rightarrow> string \<Rightarrow> string promise" where
  "attempt deflate rt port =
     result (connectAndSendInternal deflate (Some ''NULL'') port (fst (rt port)) (snd (rt port)))"

text \<open>
  The test the scan applies to the outcome of a send.
\<close>

definition accepted :: "(string \<Rightarrow> string \<Rightarrow> string promise) \<Rightarrow> string \<Rightarrow> bool" where
  "accepted send port =
     (case send ''NULL'' port of
        Pending \<Rightarrow> False
      | Fulfilled r \<Rightarrow> startsWith r ''Successfully connected''
      | Rejected e \<Rightarrow> False)"

text \<open>
  The data an outstanding compression works on is the payload.
\<close>

definition encoding :: "string option \<Rightarrow> session \<Rightarrow> bool" where
  "encoding code s \<longleftrightarrow>
     (\<forall>d. phase s = AwaitDeflate d \<longrightarrow> code = Some d \<and> d \<noteq> [] \<and> d \<noteq> ''NULL'')"

text \<open>
  The actions a probe of a port can take.
\<close>

definition probe_action :: "string \<Rightarrow> action \<Rightarrow> bool" where
  "probe_action port a \<longleftrightarrow>
     a = SocketConnect port ''127.0.0.1'' \<or> a = SocketSetTimeout 1000 \<or> a = SocketDestroy \<or>
     a = ResolveBool True \<or> a = ResolveBool False"

text \<open>
  Sample data for concrete runs: the 16 bytes zlib returns for the script \<open>print(1)\<close>, and a
  codec that returns them.
\<close>

definition zlib_print1 :: string where
  "zlib_print1 = [CHR 0x78, CHR 0x9C, CHR 0x2B, CHR 0x28, CHR 0xCA, CHR 0xCC, CHR 0x2B, CHR 0xD1,
                  CHR 0x30, CHR 0xD4, CHR 0x04, CHR 0x00, CHR 0x0E, CHR 0x15, CHR 0x02, CHR 0xB0]"

definition deflate_print1 :: codec where
  "deflate_print1 data = Inr zlib_print1"

text \<open>
  A sample runtime for the scan: port 8395 accepts the connection, every other port refuses
  it, and the timer of each attempt fires afterwards.
\<close>

definition only_8395_listens :: runtime where
  "only_8395_listens port =
     (if port = ''8395'' then (None, [Sock SockConnect, RaceTimer])
      else (None, [Sock (SockError ''connect ECONNREFUSED''), RaceTimer]))"

section \<open>Properties\<close>

lemma settle_simps [simp]:
  "settle Pending x = x"
  "settle (Fulfilled v) x = Fulfilled v"
  "settle (Rejected e) x = Rejected e"
  by (simp_all add: settle_def)

lemmas handler_defs =
  on_event_def resume_def settle_connecting_def after_connect_def no_script_def
  catch_error_def operation_settles_def timer_fires_def compressData_def

lemma settle_connecting_fields [simp]:
  "phase (settle_connecting outcome s) = phase s"
  "result (settle_connecting outcome s) = result s"
  "trace (settle_connecting outcome s) = trace s"
  "connect_cb (settle_connecting outcome s) = connect_cb s"
  "listening (settle_connecting outcome s) = listening s"
  by (simp_all add: settle_connecting_def split: promise.splits)

lemma resume_elsewhere [simp]:
  "phase s \<noteq> AwaitConnect \<Longrightarrow> resume code port s = s"
  by (simp add: resume_def split: phase.splits)

lemma foldl_invariant:
  assumes "P s" and "\<And>s e. P s \<Longrightarrow> P (f s e)"
  shows "P (foldl f s es)"
  using assms(1) by (induction es arbitrary: s) (simp_all add: assms(2))

lemma session_inv_begin: "session_inv (begin_session code port throws)"
  by (auto simp: session_inv_def begin_session_def promiseTimeout_def resume_def catch_error_def
      split: option.splits)

lemma session_inv_step:
  assumes "session_inv s"
  shows "session_inv (on_event deflate code port s ev)"
proof (cases ev)
  case (Sock se)
  with assms show ?thesis
    by (cases se)
      (auto simp: session_inv_def handler_defs split: phase.splits promise.splits option.splits)
next
  case RaceTimer
  with assms show ?thesis
    by (auto simp: session_inv_def handler_defs split: phase.splits promise.splits option.splits)
next
  case DeflateDone
  with assms show ?thesis
    by (auto simp: session_inv_def handler_defs split: phase.splits sum.splits)
next
  case WriteCallback
  with assms show ?thesis
    by (auto simp: session_inv_def handler_defs split: phase.splits)
qed

lemma session_inv_run: "session_inv (connectAndSendInternal deflate code port throws evs)"
  unfolding connectAndSendInternal_def
  by (rule foldl_invariant) (simp_all add: session_inv_begin session_inv_step)

lemma result_stable_step:
  assumes "session_inv s" and "result s \<noteq> Pending"
  shows "result (on_event deflate code port s ev) = result s"
proof -
  from assms have "phase s = Done" by (simp add: session_inv_def)
  then show ?thesis
    by (cases ev) (auto simp: on_event_def split: sock_event.splits)
qed

lemma result_stable:
  assumes "session_inv s" and "result s \<noteq> Pending"
  shows "result (foldl (on_event deflate code port) s evs) = result s"
  using assms
proof (induction evs arbitrary: s)
  case Nil
  then show ?case by simp
next
  case (Cons ev evs)
  have "result (on_event deflate code port s ev) = result s"
    using Cons.prems by (rule result_stable_step)
  moreover have "session_inv (on_event deflate code port s ev)"
    using Cons.prems(1) by (rule session_inv_step)
  ultimately show ?case
    using Cons.IH [of "on_event deflate code port s ev"] Cons.prems(2) by simp
qed

lemma after_connect_sentinel:
  "\<not> has_payload code \<Longrightarrow> after_connect code port s = no_script port s"
  by (auto simp: has_payload_def after_connect_def split: option.splits)

subsection \<open>What each event does while the connect is outstanding\<close>

lemma error_while_connecting:
  assumes "session_inv s" and "phase s = AwaitConnect"
  shows "result (on_event deflate code port s (Sock (SockError m))) = Fulfilled (failure_report port m)"
    and "trace (on_event deflate code port s (Sock (SockError m))) =
         trace s @ [SocketDestroy, SocketDestroy, ConsoleError (failure_report port m),
                    Resolve (failure_report port m)]"
    and "phase (on_event deflate code port s (Sock (SockError m))) = Done"
  using assms
  by (simp_all add: session_inv_def on_event_def resume_def settle_connecting_def
      operation_settles_def catch_error_def)

lemma socket_timeout_while_connecting:
  assumes "session_inv s" and "phase s = AwaitConnect"
  shows "result (on_event deflate code port s (Sock SockTimeout)) =
         Fulfilled (failure_report port (socket_timeout_message port))"
    and "trace (on_event deflate code port s (Sock SockTimeout)) =
         trace s @ [SocketDestroy, SocketDestroy,
                    ConsoleError (failure_report port (socket_timeout_message port)),
                    Resolve (failure_report port (socket_timeout_message port))]"
    and "phase (on_event deflate code port s (Sock SockTimeout)) = Done"
  using assms
  by (simp_all add: session_inv_def on_event_def resume_def settle_connecting_def
      operation_settles_def catch_error_def)

lemma race_timer_while_connecting:
  assumes "session_inv s" and "phase s = AwaitConnect"
  shows "result (on_event deflate code port s RaceTimer) =
         Fulfilled (failure_report port (timeout_message (race s)))"
    and "trace (on_event deflate code port s RaceTimer) =
         trace s @ [SocketDestroy, ConsoleError (failure_report port (timeout_message (race s))),
                    Resolve (failure_report port (timeout_message (race s)))]"
    and "phase (on_event deflate code port s RaceTimer) = Done"
  using assms
  by (simp_all add: session_inv_def on_event_def resume_def timer_fires_def catch_error_def)

lemma connect_while_connecting:
  assumes "session_inv s" and "phase s = AwaitConnect"
  shows "on_event deflate code port s (Sock SockConnect) =
         after_connect code port
           (s\<lparr>connect_cb := False, trace := trace s @ [ConsoleLog (connected_log port)],
              connecting := Fulfilled (), race := operation_settles (Fulfilled ()) (race s)\<rparr>)"
  using assms
  by (simp add: session_inv_def on_event_def resume_def settle_connecting_def operation_settles_def)

lemma phase_leaves_connect:
  assumes "phase s \<noteq> AwaitConnect"
  shows "phase (on_event deflate code port s ev) \<noteq> AwaitConnect"
  using assms
  by (cases ev)
    (auto simp: on_event_def catch_error_def split: sock_event.splits phase.splits sum.splits)

lemma phase_leaves_connect_run:
  assumes "phase s \<noteq> AwaitConnect"
  shows "phase (foldl (on_event deflate code port) s evs) \<noteq> AwaitConnect"
  using assms by (rule foldl_invariant) (rule phase_leaves_connect)

subsection \<open>The timeout message of the race\<close>

lemma timeout_message_resume [simp]:
  "timeout_message (race (resume code port s)) = timeout_message (race s)"
  by (simp add: resume_def after_connect_def no_script_def catch_error_def
      split: phase.splits promise.splits option.splits)

lemma timeout_message_settle_connecting [simp]:
  "timeout_message (race (settle_connecting outcome s)) = timeout_message (race s)"
  by (simp add: settle_connecting_def operation_settles_def split: promise.splits)

lemma timeout_message_step:
  "timeout_message (race (on_event deflate code port s ev)) = timeout_message (race s)"
proof (cases ev)
  case (Sock se)
  then show ?thesis by (cases se) (simp_all add: on_event_def)
next
  case RaceTimer
  then show ?thesis by (simp add: on_event_def timer_fires_def)
next
  case DeflateDone
  then show ?thesis
    by (simp add: on_event_def catch_error_def split: phase.splits sum.splits)
next
  case WriteCallback
  then show ?thesis by (simp add: on_event_def split: phase.splits)
qed

lemma timeout_message_begin:
  "timeout_message (race (begin_session code port throws)) = race_timeout_message port"
  by (cases throws) (simp_all add: begin_session_def promiseTimeout_def)

lemma timeout_message_run:
  "timeout_message (race (connectAndSendInternal deflate code port throws evs)) =
   race_timeout_message port"
  unfolding connectAndSendInternal_def
  by (rule foldl_invariant) (simp_all add: timeout_message_begin timeout_message_step)

subsection \<open>Reports\<close>

lemma failure_report_is_failure [simp]: "startsWith (failure_report port m) ''Failed''"
  by (simp add: startsWith_def failure_report_def)

lemma no_script_report_not_failure [simp]: "\<not> startsWith (no_script_report port) ''Failed''"
  by (simp add: startsWith_def no_script_report_def)

lemma executed_report_not_failure [simp]: "\<not> startsWith (executed_report port) ''Failed''"
  by (simp add: startsWith_def executed_report_def)

lemma no_script_report_connected [simp]:
  "startsWith (no_script_report port) ''Successfully connected''"
  by (simp add: startsWith_def no_script_report_def)

lemma failure_report_not_connected [simp]:
  "\<not> startsWith (failure_report port m) ''Successfully connected''"
  by (simp add: startsWith_def failure_report_def)

lemma no_script_not_failure_report [simp]: "no_script_report port \<noteq> failure_report port' m"
  by (simp add: no_script_report_def failure_report_def)

subsection \<open>A send without payload\<close>

lemma silent_catch_error: "silent port s \<Longrightarrow> silent port (catch_error port m s)"
  by (cases "result s") (auto simp: silent_def catch_error_def)

lemma silent_no_script: "silent port s \<Longrightarrow> silent port (no_script port s)"
  by (cases "result s") (auto simp: silent_def no_script_def)

lemma silent_resume:
  assumes "\<not> has_payload code" and "silent port s"
  shows "silent port (resume code port s)"
  using assms
  by (simp add: resume_def after_connect_sentinel silent_no_script silent_catch_error
      split: phase.splits promise.splits)

lemma silent_settle_connecting [simp]:
  "silent port (settle_connecting outcome s) = silent port s"
  by (simp add: silent_def)

lemma silent_log:
  "silent port s \<Longrightarrow> \<not> transfers a \<Longrightarrow> silent port (s\<lparr>trace := trace s @ [a]\<rparr>)"
  by (simp add: silent_def)

lemma silent_connect_log:
  "silent port s \<Longrightarrow>
   silent port (s\<lparr>connect_cb := False, trace := trace s @ [ConsoleLog l]\<rparr>)"
  by (simp add: silent_def)

lemma silent_begin:
  assumes "\<not> has_payload code"
  shows "silent port (begin_session code port throws)"
proof (cases throws)
  case None
  then show ?thesis by (simp add: begin_session_def silent_def)
next
  case (Some m)
  have "silent port
          \<lparr>phase = AwaitConnect, connecting = Rejected m,
           race = promiseTimeout (Rejected m) timeoutMs (race_timeout_message port),
           connect_cb = False, listening = False, result = Pending,
           trace = [SocketConnect port ''127.0.0.1'', SetTimer timeoutMs]\<rparr>"
    by (simp add: silent_def)
  with assms Some show ?thesis
    by (simp add: begin_session_def silent_resume)
qed

lemma silent_step:
  assumes "\<not> has_payload code" and "silent port s"
  shows "silent port (on_event deflate code port s ev)"
proof (cases ev)
  case (Sock se)
  with assms show ?thesis
    by (cases se) (simp_all add: on_event_def silent_resume silent_log silent_connect_log)
next
  case RaceTimer
  have "silent port (s\<lparr>race := timer_fires (race s)\<rparr>)"
    using assms(2) by (simp add: silent_def)
  with assms(1) RaceTimer show ?thesis
    by (simp add: on_event_def silent_resume)
next
  case DeflateDone
  with assms(2) show ?thesis
    by (auto simp: on_event_def silent_def)
next
  case WriteCallback
  with assms(2) show ?thesis
    by (auto simp: on_event_def silent_def)
qed

lemma silent_run:
  assumes "\<not> has_payload code"
  shows "silent port (connectAndSendInternal deflate code port throws evs)"
  unfolding connectAndSendInternal_def
  by (rule foldl_invariant) (simp_all add: silent_begin silent_step assms)

lemma sentinel_resume_same:
  assumes "\<not> has_payload code" and "\<not> has_payload code'"
  shows "resume code port t = resume code' port t"
  using assms by (simp add: resume_def after_connect_sentinel split: phase.splits promise.splits)

lemma sentinel_step_same:
  assumes "\<not> has_payload code" and "\<not> has_payload code'"
  shows "on_event deflate code port s ev = on_event deflate code' port s ev"
proof (cases ev)
  case (Sock se)
  then show ?thesis
    by (cases se) (simp_all add: on_event_def sentinel_resume_same [OF assms])
next
  case RaceTimer
  then show ?thesis by (simp add: on_event_def sentinel_resume_same [OF assms])
next
  case DeflateDone
  then show ?thesis by (simp add: on_event_def)
next
  case WriteCallback
  then show ?thesis by (simp add: on_event_def)
qed

lemma sentinel_begin_same:
  assumes "\<not> has_payload code" and "\<not> has_payload code'"
  shows "begin_session code port throws = begin_session code' port throws"
  by (cases throws) (simp_all add: begin_session_def sentinel_resume_same [OF assms])

lemma sentinel_run_same:
  assumes "\<not> has_payload code" and "\<not> has_payload code'"
  shows "connectAndSendInternal deflate code port throws evs =
         connectAndSendInternal deflate code' port throws evs"
proof -
  have "on_event deflate code port = on_event deflate code' port"
    using assms by (intro ext) (rule sentinel_step_same)
  then show ?thesis
    by (simp add: connectAndSendInternal_def sentinel_begin_same [OF assms])
qed

subsection \<open>Events after the session is over\<close>

lemma done_step:
  assumes "phase s = Done"
  shows "phase (on_event deflate code port s ev) = Done"
    and "result (on_event deflate code port s ev) = result s"
    and "trace (on_event deflate code port s ev) = trace s \<or>
         trace (on_event deflate code port s ev) = trace s @ [SocketDestroy] \<or>
         trace (on_event deflate code port s ev) = trace s @ [ConsoleLog (connected_log port)]"
proof -
  show "phase (on_event deflate code port s ev) = Done"
    using assms by (cases ev) (simp_all add: on_event_def split: sock_event.splits)
  show "result (on_event deflate code port s ev) = result s"
    using assms by (cases ev) (simp_all add: on_event_def split: sock_event.splits)
  show "trace (on_event deflate code port s ev) = trace s \<or>
        trace (on_event deflate code port s ev) = trace s @ [SocketDestroy] \<or>
        trace (on_event deflate code port s ev) = trace s @ [ConsoleLog (connected_log port)]"
    using assms by (cases ev) (simp_all add: on_event_def split: sock_event.splits)
qed

lemma idle_while_connecting:
  assumes "phase s = AwaitConnect"
  shows "on_event deflate code port s DeflateDone = s"
    and "on_event deflate code port s WriteCallback = s"
  using assms by (simp_all add: on_event_def)

subsection \<open>A send that never connects\<close>

lemma unconnected_begin: "unconnected port (begin_session code port throws)"
  by (cases throws)
    (auto simp: unconnected_def begin_session_def promiseTimeout_def resume_def catch_error_def)

lemma unconnected_step:
  assumes "session_inv s" and "unconnected port s" and "ev \<noteq> Sock SockConnect"
  shows "unconnected port (on_event deflate code port s ev)"
proof (cases "phase s = AwaitConnect")
  case True
  show ?thesis
  proof (cases ev)
    case (Sock se)
    with assms True show ?thesis
      by (cases se)
        (auto simp: unconnected_def error_while_connecting socket_timeout_while_connecting)
  next
    case RaceTimer
    with assms True show ?thesis
      by (auto simp: unconnected_def race_timer_while_connecting)
  next
    case DeflateDone
    with assms True show ?thesis by (simp add: idle_while_connecting)
  next
    case WriteCallback
    with assms True show ?thesis by (simp add: idle_while_connecting)
  qed
next
  case False
  with assms(2) have d: "phase s = Done" by (auto simp: unconnected_def)
  from done_step [OF d, of deflate code port ev] assms(2) show ?thesis
    by (auto simp: unconnected_def)
qed

lemma unconnected_run:
  assumes "Sock SockConnect \<notin> set evs"
  shows "unconnected port (connectAndSendInternal deflate code port throws evs)"
proof -
  have "session_inv s \<Longrightarrow> unconnected port s \<Longrightarrow> Sock SockConnect \<notin> set evs \<Longrightarrow>
        unconnected port (foldl (on_event deflate code port) s evs)" for s
  proof (induction evs arbitrary: s)
    case Nil
    then show ?case by simp
  next
    case (Cons ev evs)
    from Cons.prems have "ev \<noteq> Sock SockConnect" by auto
    with Cons.prems have "unconnected port (on_event deflate code port s ev)"
      by (simp add: unconnected_step)
    moreover have "session_inv (on_event deflate code port s ev)"
      using Cons.prems(1) by (rule session_inv_step)
    ultimately show ?case using Cons.IH Cons.prems(3) by simp
  qed
  with assms show ?thesis
    by (simp add: connectAndSendInternal_def unconnected_begin session_inv_begin)
qed

subsection \<open>The socket is destroyed before a failure is reported\<close>

lemma failure_after_destroy_append:
  "failure_after_destroy d (xs @ ys) \<longleftrightarrow>
   failure_after_destroy d xs \<and> failure_after_destroy (d \<or> SocketDestroy \<in> set xs) ys"
proof (induction xs arbitrary: d)
  case Nil
  then show ?case by simp
next
  case (Cons a xs)
  then show ?case by (cases a) auto
qed

lemma fad_catch_error:
  "failure_after_destroy False (trace s) \<Longrightarrow>
   failure_after_destroy False (trace (catch_error port m s))"
  by (simp add: catch_error_def failure_after_destroy_append)

lemma fad_no_script:
  "failure_after_destroy False (trace s) \<Longrightarrow>
   failure_after_destroy False (trace (no_script port s))"
  by (simp add: no_script_def failure_after_destroy_append)

lemma fad_after_connect:
  "failure_after_destroy False (trace s) \<Longrightarrow>
   failure_after_destroy False (trace (after_connect code port s))"
  by (simp add: after_connect_def fad_no_script failure_after_destroy_append split: option.splits)

lemma fad_resume:
  "failure_after_destroy False (trace s) \<Longrightarrow>
   failure_after_destroy False (trace (resume code port s))"
  by (simp add: resume_def fad_after_connect fad_catch_error split: phase.splits promise.splits)

lemma failure_after_destroy_begin:
  "failure_after_destroy False (trace (begin_session code port throws))"
  by (cases throws) (simp_all add: begin_session_def fad_resume)

lemma failure_after_destroy_step:
  assumes "failure_after_destroy False (trace s)"
  shows "failure_after_destroy False (trace (on_event deflate code port s ev))"
proof (cases ev)
  case (Sock se)
  with assms show ?thesis
    by (cases se) (simp_all add: on_event_def fad_resume failure_after_destroy_append)
next
  case RaceTimer
  with assms show ?thesis
    by (simp add: on_event_def fad_resume)
next
  case DeflateDone
  with assms show ?thesis
    by (simp add: on_event_def fad_catch_error failure_after_destroy_append
        split: phase.splits sum.splits)
next
  case WriteCallback
  with assms show ?thesis
    by (simp add: on_event_def failure_after_destroy_append split: phase.splits)
qed

lemma failure_after_destroy_run:
  "failure_after_destroy False (trace (connectAndSendInternal deflate code port throws evs))"
  unfolding connectAndSendInternal_def
  by (rule foldl_invariant [where P = "\<lambda>s. failure_after_destroy False (trace s)"])
    (simp_all add: failure_after_destroy_begin failure_after_destroy_step)

lemma failure_after_destroy_split:
  assumes "failure_after_destroy d (pre @ Resolve r # post)" and "startsWith r ''Failed''"
  shows "d \<or> SocketDestroy \<in> set pre"
  using assms by (auto simp: failure_after_destroy_append)

subsection \<open>All events that end the wait for the connect\<close>

lemma connect_ends_wait:
  assumes "session_inv s" and "phase s = AwaitConnect"
  shows "phase (on_event deflate code port s (Sock SockConnect)) \<noteq> AwaitConnect"
  using assms
  by (simp add: connect_while_connecting after_connect_def no_script_def split: option.splits)

lemma socket_event_ends_wait:
  assumes "session_inv s" and "phase s = AwaitConnect"
  shows "phase (on_event deflate code port s (Sock se)) \<noteq> AwaitConnect"
  using assms
  by (cases se)
    (simp_all add: connect_ends_wait error_while_connecting socket_timeout_while_connecting)

lemma decisive_event_ends_connect:
  assumes "ev \<in> set evs" and "ev \<noteq> DeflateDone" and "ev \<noteq> WriteCallback"
  shows "phase (connectAndSendInternal deflate code port throws evs) \<noteq> AwaitConnect"
proof -
  from assms(1) obtain pre post where evs: "evs = pre @ ev # post"
    by (auto simp: in_set_conv_decomp)
  let ?s = "connectAndSendInternal deflate code port throws pre"
  have inv: "session_inv ?s" by (rule session_inv_run)
  have "phase (on_event deflate code port ?s ev) \<noteq> AwaitConnect"
  proof (cases "phase ?s = AwaitConnect")
    case True
    with inv assms(2,3) show ?thesis
      by (cases ev) (simp_all add: race_timer_while_connecting socket_event_ends_wait)
  next
    case False
    then show ?thesis by (rule phase_leaves_connect)
  qed
  then have "phase (foldl (on_event deflate code port) (on_event deflate code port ?s ev) post)
             \<noteq> AwaitConnect"
    by (rule phase_leaves_connect_run)
  then show ?thesis by (simp add: evs connectAndSendInternal_def)
qed

subsection \<open>What is handed to the codec\<close>

lemma encoding_resume:
  "encoding code s \<Longrightarrow> encoding code (resume code port s)"
  by (simp add: encoding_def resume_def after_connect_def no_script_def catch_error_def
      split: phase.splits promise.splits option.splits)

lemma encoding_begin: "encoding code (begin_session code port throws)"
proof (cases throws)
  case None
  then show ?thesis by (simp add: begin_session_def encoding_def)
next
  case (Some m)
  have "encoding code
          \<lparr>phase = AwaitConnect, connecting = Rejected m,
           race = promiseTimeout (Rejected m) timeoutMs (race_timeout_message port),
           connect_cb = False, listening = False, result = Pending,
           trace = [SocketConnect port ''127.0.0.1'', SetTimer timeoutMs]\<rparr>"
    by (simp add: encoding_def)
  then show ?thesis by (simp add: Some begin_session_def encoding_resume)
qed

lemma encoding_step:
  assumes "encoding code s"
  shows "encoding code (on_event deflate code port s ev)"
proof (cases ev)
  case (Sock se)
  have "encoding code (settle_connecting outcome (s\<lparr>trace := tr\<rparr>))" for outcome tr
    using assms by (simp add: encoding_def)
  moreover have "encoding code (settle_connecting outcome (s\<lparr>connect_cb := False, trace := tr\<rparr>))"
    for outcome tr
    using assms by (simp add: encoding_def)
  ultimately show ?thesis
    using assms Sock by (cases se) (simp_all add: on_event_def encoding_resume)
next
  case RaceTimer
  have "encoding code (s\<lparr>race := timer_fires (race s)\<rparr>)"
    using assms by (simp add: encoding_def)
  with RaceTimer show ?thesis by (simp add: on_event_def encoding_resume)
next
  case DeflateDone
  with assms show ?thesis
    by (simp add: on_event_def encoding_def catch_error_def split: phase.splits sum.splits)
next
  case WriteCallback
  with assms show ?thesis
    by (simp add: on_event_def encoding_def split: phase.splits)
qed

lemma encoding_run: "encoding code (connectAndSendInternal deflate code port throws evs)"
  unfolding connectAndSendInternal_def
  by (rule foldl_invariant) (simp_all add: encoding_begin encoding_step)

subsection \<open>The port probe\<close>

lemma probe_answer_stable_step:
  "answer p \<noteq> Pending \<Longrightarrow> answer (probe_event p ev) = answer p"
  by (cases "answer p"; cases ev) (simp_all add: probe_event_def probe_settle_def)

lemma probe_answer_stable:
  "answer p \<noteq> Pending \<Longrightarrow> answer (foldl probe_event p evs) = answer p"
proof (induction evs arbitrary: p)
  case Nil
  then show ?case by simp
next
  case (Cons ev evs)
  then show ?case by (simp add: probe_answer_stable_step)
qed

lemma probe_first_event:
  "answer (probe_event (begin_probe port None) ev) =
   (case ev of SockConnect \<Rightarrow> Fulfilled True | SockError m \<Rightarrow> Fulfilled False
    | SockTimeout \<Rightarrow> Fulfilled False)"
  by (cases ev) (simp_all add: probe_event_def probe_settle_def begin_probe_def)

lemma probe_answer:
  "answer (check_port_status port None evs) =
   (case evs of
      [] \<Rightarrow> Pending
    | SockConnect # rest \<Rightarrow> Fulfilled True
    | SockError m # rest \<Rightarrow> Fulfilled False
    | SockTimeout # rest \<Rightarrow> Fulfilled False)"
proof (cases evs)
  case Nil
  then show ?thesis by (simp add: check_port_status_def begin_probe_def)
next
  case (Cons ev rest)
  have "answer (probe_event (begin_probe port None) ev) \<noteq> Pending"
    by (cases ev) (simp_all add: probe_first_event)
  then have "answer (check_port_status port None evs) =
             answer (probe_event (begin_probe port None) ev)"
    by (simp add: Cons check_port_status_def probe_answer_stable)
  then show ?thesis
    by (cases ev) (simp_all add: Cons probe_first_event)
qed

lemma probe_rejected:
  "answer (check_port_status port (Some m) evs) = Rejected m"
  by (simp add: check_port_status_def probe_answer_stable begin_probe_def)

lemma probe_forget_step:
  "probe_event p (forget_cause ev) = probe_event p ev"
  by (cases ev) (simp_all add: probe_event_def forget_cause_def)

lemma probe_forget:
  "check_port_status port throws (map forget_cause evs) = check_port_status port throws evs"
proof -
  have "foldl probe_event p (map forget_cause evs) = foldl probe_event p evs" for p
    by (induction evs arbitrary: p) (simp_all add: probe_forget_step)
  then show ?thesis by (simp add: check_port_status_def)
qed

lemma probe_actions_step:
  "list_all (probe_action port) (probe_trace p) \<Longrightarrow>
   list_all (probe_action port) (probe_trace (probe_event p ev))"
  by (cases ev) (simp_all add: probe_event_def probe_settle_def probe_action_def)

lemma probe_actions:
  "list_all (probe_action port) (probe_trace (check_port_status port throws evs))"
  unfolding check_port_status_def
  by (rule foldl_invariant [where P = "\<lambda>p. list_all (probe_action port) (probe_trace p)"])
    (simp_all add: probe_actions_step begin_probe_def probe_action_def split: option.splits)

subsection \<open>The scan\<close>

lemma auto_attach_loop_settled:
  assumes "\<forall>p \<in> set ports. send ''NULL'' p \<noteq> Pending"
  shows "auto_attach_loop send ports =
         (case find (accepted send) ports of
            None \<Rightarrow> (map (Pair ''NULL'') ports, Some ''Failed to connect on all ports'')
          | Some p \<Rightarrow>
              (map (Pair ''NULL'') (takeWhile (\<lambda>q. \<not> accepted send q) ports @ [p]), Some p))"
  using assms
proof (induction ports)
  case Nil
  then show ?case by simp
next
  case (Cons port ports)
  then have IH: "auto_attach_loop send ports =
         (case find (accepted send) ports of
            None \<Rightarrow> (map (Pair ''NULL'') ports, Some ''Failed to connect on all ports'')
          | Some p \<Rightarrow>
              (map (Pair ''NULL'') (takeWhile (\<lambda>q. \<not> accepted send q) ports @ [p]), Some p))"
    by simp
  show ?case
  proof (cases "accepted send port")
    case True
    then obtain r where "send ''NULL'' port = Fulfilled r" "startsWith r ''Successfully connected''"
      by (auto simp: accepted_def split: promise.splits)
    with True show ?thesis by simp
  next
    case False
    from Cons.prems have "send ''NULL'' port \<noteq> Pending" by simp
    with False have "auto_attach_loop send (port # ports) =
        (case auto_attach_loop send ports of
           (calls, returned) \<Rightarrow> ((''NULL'', port) # calls, returned))"
      by (cases "send ''NULL'' port") (simp_all add: accepted_def)
    with False show ?thesis
      by (simp add: IH split: option.splits)
  qed
qed

subsection \<open>The race\<close>

lemma raced_stable_step: "raced r \<noteq> Pending \<Longrightarrow> raced (race_step r e) = raced r"
  by (cases e; cases "raced r") (simp_all add: operation_settles_def timer_fires_def)

lemma raced_stable: "raced r \<noteq> Pending \<Longrightarrow> raced (foldl race_step r es) = raced r"
proof (induction es arbitrary: r)
  case Nil
  then show ?case by simp
next
  case (Cons e es)
  then show ?case by (simp add: raced_stable_step)
qed

lemma timer_pending_until_fired:
  "TimerFires \<notin> set es \<Longrightarrow> timer_pending (foldl race_step r es) = timer_pending r"
proof (induction es arbitrary: r)
  case Nil
  then show ?case by simp
next
  case (Cons e es)
  then show ?case by (cases e) (simp_all add: operation_settles_def)
qed

subsection \<open>The trace only grows\<close>

lemma trace_grows_resume: "prefix (trace s) (trace (resume code port s))"
  by (simp add: resume_def after_connect_def no_script_def catch_error_def
      split: phase.splits promise.splits option.splits)

lemma trace_grows_step: "prefix (trace s) (trace (on_event deflate code port s ev))"
proof (cases ev)
  case (Sock se)
  have a: "prefix (trace s) (trace (resume code port (settle_connecting outcome (s\<lparr>trace := trace s @ added\<rparr>))))"
    for outcome added
    using trace_grows_resume [of "settle_connecting outcome (s\<lparr>trace := trace s @ added\<rparr>)" code port]
    by (auto dest: append_prefixD)
  have b: "prefix (trace s) (trace (resume code port
             (settle_connecting outcome (s\<lparr>connect_cb := False, trace := trace s @ added\<rparr>))))"
    for outcome added
    using trace_grows_resume
      [of "settle_connecting outcome (s\<lparr>connect_cb := False, trace := trace s @ added\<rparr>)" code port]
    by (auto dest: append_prefixD)
  from Sock show ?thesis
    by (cases se) (simp_all add: on_event_def a b)
next
  case RaceTimer
  then show ?thesis
    using trace_grows_resume [of "s\<lparr>race := timer_fires (race s)\<rparr>" code port]
    by (simp add: on_event_def)
next
  case DeflateDone
  then show ?thesis
    by (simp add: on_event_def catch_error_def split: phase.splits sum.splits)
next
  case WriteCallback
  then show ?thesis
    by (simp add: on_event_def split: phase.splits)
qed

lemma trace_grows: "prefix (trace s) (trace (foldl (on_event deflate code port) s evs))"
proof (induction evs arbitrary: s)
  case Nil
  then show ?case by simp
next
  case (Cons ev evs)
  have "prefix (trace s) (trace (on_event deflate code port s ev))"
    by (rule trace_grows_step)
  also have "prefix (trace (on_event deflate code port s ev))
               (trace (foldl (on_event deflate code port) (on_event deflate code port s ev) evs))"
    by (rule Cons.IH)
  finally show ?case by simp
qed

lemma trace_start:
  "take 3 (trace (connectAndSendInternal deflate code port None evs)) =
   [SocketConnect port ''127.0.0.1'', SocketSetTimeout 3000, SetTimer 3000]"
proof -
  have "prefix (trace (begin_session code port None))
          (trace (connectAndSendInternal deflate code port None evs))"
    unfolding connectAndSendInternal_def by (rule trace_grows)
  then obtain added where "trace (connectAndSendInternal deflate code port None evs) =
      [SocketConnect port ''127.0.0.1'', SocketSetTimeout 3000, SetTimer 3000] @ added"
    by (auto simp: prefix_def begin_session_def timeoutMs_def)
  then show ?thesis by simp
qed

lemmas run_defs =
  connectAndSendInternal_def begin_session_def on_event_def resume_def settle_connecting_def
  after_connect_def no_script_def catch_error_def promiseTimeout_def operation_settles_def
  timer_fires_def compressData_def

lemmas report_defs =
  compression_failed_def failure_report_def no_script_report_def executed_report_def connected_log_def sent_log_def
  socket_timeout_message_def race_timeout_message_def

subsection \<open>Once settled, always settled\<close>

lemma settled_for_good:
  assumes "session_inv s" and "result (on_event deflate code port s ev) = Fulfilled r"
  shows "result (foldl (on_event deflate code port) (on_event deflate code port s ev) later) =
         Fulfilled r"
proof -
  have "session_inv (on_event deflate code port s ev)"
    using assms(1) by (rule session_inv_step)
  then show ?thesis
    using assms(2) by (simp add: result_stable)
qed

lemma run_snoc:
  "connectAndSendInternal deflate code port throws (evs @ ev # later) =
   foldl (on_event deflate code port)
     (on_event deflate code port (connectAndSendInternal deflate code port throws evs) ev) later"
  by (simp add: connectAndSendInternal_def)

lemma run_last:
  "connectAndSendInternal deflate code port throws (evs @ [ev]) =
   on_event deflate code port (connectAndSendInternal deflate code port throws evs) ev"
  by (simp add: connectAndSendInternal_def)

lemma deflate_failure:
  assumes "session_inv s" and "phase s = AwaitDeflate data" and "deflate data = Inl m"
  shows "result (on_event deflate code port s DeflateDone) =
         Fulfilled (failure_report port (compression_failed m))"
proof -
  from assms(1,2) have "result s = Pending" by (auto simp: session_inv_def)
  with assms(2,3) show ?thesis
    by (simp add: on_event_def compressData_def catch_error_def)
qed

lemma write_flushed:
  assumes "session_inv s" and "phase s = AwaitWrite c"
  shows "result (on_event deflate code port s WriteCallback) = Fulfilled (executed_report port)"
    and "trace (on_event deflate code port s WriteCallback) =
         trace s @ [ConsoleLog (sent_log port c), SocketEnd, Resolve (executed_report port)]"
proof -
  from assms have "result s = Pending" by (auto simp: session_inv_def)
  with assms(2) show "result (on_event deflate code port s WriteCallback) =
      Fulfilled (executed_report port)"
    by (simp add: on_event_def)
  from assms(2) show "trace (on_event deflate code port s WriteCallback) =
         trace s @ [ConsoleLog (sent_log port c), SocketEnd, Resolve (executed_report port)]"
    by (simp add: on_event_def)
qed

lemma throw_is_reported:
  "result (connectAndSendInternal deflate code port (Some m) evs) = Fulfilled (failure_report port m)"
proof -
  have "result (begin_session code port (Some m)) = Fulfilled (failure_report port m)"
    by (simp add: begin_session_def promiseTimeout_def resume_def catch_error_def)
  then show ?thesis
    by (simp add: connectAndSendInternal_def result_stable session_inv_begin)
qed

lemma report_embeds_port: "sublist port (failure_report port m)"
  unfolding failure_report_def sublist_def by blast

lemma report_embeds_message: "sublist m (failure_report port m)"
proof -
  have "failure_report port m = (''Failed to connect or send on port '' @ port @ '': '') @ m @ []"
    by (simp add: failure_report_def)
  then show ?thesis
    unfolding sublist_def by blast
qed

text \<open>
  Failures up to the write. For every payload and port the promise returned by the send is
  never rejected. While the connect is outstanding, a socket error, the socket's own timeout and the timer of
  the timeout race each make it resolve with the failure report for that port and that
  error's message, whatever is delivered later; so does a codec error while the compression
  is outstanding (the data handed to the codec being the payload), and so does an exception
  raised by the connect call itself. The failure report contains the port and the message.
\<close>

theorem send_resolves_failure_report:
  "(\<forall>e. result (connectAndSendInternal deflate code port throws evs) \<noteq> Rejected e) \<and>
   (phase (connectAndSendInternal deflate code port throws evs) = AwaitConnect \<longrightarrow>
      result (connectAndSendInternal deflate code port throws (evs @ Sock (SockError m) # later)) =
        Fulfilled (failure_report port m) \<and>
      result (connectAndSendInternal deflate code port throws (evs @ Sock SockTimeout # later)) =
        Fulfilled (failure_report port (socket_timeout_message port)) \<and>
      result (connectAndSendInternal deflate code port throws (evs @ RaceTimer # later)) =
        Fulfilled (failure_report port (race_timeout_message port))) \<and>
   (phase (connectAndSendInternal deflate code' port throws evs') = AwaitDeflate data \<and>
    deflate data = Inl m \<longrightarrow>
      code' = Some data \<and>
      result (connectAndSendInternal deflate code' port throws (evs' @ DeflateDone # later)) =
        Fulfilled (failure_report port (compression_failed m))) \<and>
   result (connectAndSendInternal deflate code port (Some m) evs) =
     Fulfilled (failure_report port m) \<and>
   sublist port (failure_report port m) \<and> sublist m (failure_report port m)"
proof -
  let ?s = "connectAndSendInternal deflate code port throws evs"
  let ?s' = "connectAndSendInternal deflate code' port throws evs'"
  have inv: "session_inv ?s" and inv': "session_inv ?s'"
    by (rule session_inv_run)+
  have never: "\<forall>e. result ?s \<noteq> Rejected e"
    using inv by (simp add: session_inv_def)
  have connecting: "result (connectAndSendInternal deflate code port throws (evs @ Sock (SockError m) # later)) =
        Fulfilled (failure_report port m) \<and>
      result (connectAndSendInternal deflate code port throws (evs @ Sock SockTimeout # later)) =
        Fulfilled (failure_report port (socket_timeout_message port)) \<and>
      result (connectAndSendInternal deflate code port throws (evs @ RaceTimer # later)) =
        Fulfilled (failure_report port (race_timeout_message port))"
    if "phase ?s = AwaitConnect"
  proof -
    have "result (on_event deflate code port ?s RaceTimer) =
          Fulfilled (failure_report port (race_timeout_message port))"
      using race_timer_while_connecting(1) [OF inv that] by (simp add: timeout_message_run)
    then show ?thesis
      unfolding run_snoc
      using inv that
      by (simp add: settled_for_good error_while_connecting socket_timeout_while_connecting)
  qed
  have encoding: "code' = Some data \<and>
      result (connectAndSendInternal deflate code' port throws (evs' @ DeflateDone # later)) =
        Fulfilled (failure_report port (compression_failed m))"
    if "phase ?s' = AwaitDeflate data" "deflate data = Inl m"
  proof -
    have "code' = Some data"
      using encoding_run [of code' deflate port throws evs'] that(1) by (simp add: encoding_def)
    moreover have "result (connectAndSendInternal deflate code' port throws (evs' @ DeflateDone # later)) =
        Fulfilled (failure_report port (compression_failed m))"
      unfolding run_snoc using inv' that by (simp add: settled_for_good deflate_failure)
    ultimately show ?thesis by simp
  qed
  from never connecting encoding show ?thesis
    by (simp add: throw_is_reported report_embeds_port report_embeds_message)
qed

text \<open>
  A refused connection on port 8392, and a codec that fails on the script \<open>print(1)\<close>.
\<close>

theorem send_resolves_failure_report_witness:
  "phase (connectAndSendInternal (\<lambda>d. Inl ''boom'') (Some ''NULL'') ''8392'' None []) = AwaitConnect \<and>
   (\<lambda>d. Inl ''boom'' :: string + string) ''print(1)'' = Inl ''boom'' \<and>
   result (connectAndSendInternal (\<lambda>d. Inl ''boom'') (Some ''NULL'') ''8392'' None
             ([] @ Sock (SockError ''boom'') # [RaceTimer])) =
     Fulfilled ''Failed to connect or send on port 8392: boom'' \<and>
   phase (connectAndSendInternal (\<lambda>d. Inl ''boom'') (Some ''print(1)'') ''8392'' None [Sock SockConnect]) =
     AwaitDeflate ''print(1)'' \<and>
   result (connectAndSendInternal (\<lambda>d. Inl ''boom'') (Some ''print(1)'') ''8392'' None
             ([Sock SockConnect] @ DeflateDone # [RaceTimer])) =
     Fulfilled ''Failed to connect or send on port 8392: Compression failed: boom''"
proof -
  have a: "phase (connectAndSendInternal (\<lambda>d. Inl ''boom'') (Some ''NULL'') ''8392'' None []) = AwaitConnect"
    by (simp add: run_defs)
  have b: "phase (connectAndSendInternal (\<lambda>d. Inl ''boom'') (Some ''print(1)'') ''8392'' None [Sock SockConnect]) =
     AwaitDeflate ''print(1)''"
    by (simp add: run_defs)
  show ?thesis
    using a b
      send_resolves_failure_report [of "\<lambda>d. Inl ''boom''" "Some ''NULL''" "''8392''" None "[]"
        "''boom''" "[RaceTimer]" "Some ''print(1)''" "[Sock SockConnect]" "''print(1)''"]
    by (simp add: failure_report_def compression_failed_def)
qed

lemma transfers_iff: "transfers a \<longleftrightarrow> (\<exists>c. a = SocketWrite c) \<or> (\<exists>c. a = Compress c)"
  by (cases a) simp_all

text \<open>
  C2. The claim is that the send resolves with a failure report on any connection error.
  This run is the script \<open>print(1)\<close> sent to a listening port 8392 whose peer resets the
  connection after the bytes were handed to the socket: the error handler destroys the
  socket and its rejection goes to the connect promise, which is already fulfilled, so
  nothing is resolved; when the write callback runs the send resolves with the success
  report, not with the failure report for that error.
\<close>

theorem send_reports_success_after_connection_error:
  "result (connectAndSendInternal deflate_print1 (Some ''print(1)'') ''8392'' None
             [Sock SockConnect, DeflateDone, Sock (SockError ''read ECONNRESET'')]) = Pending \<and>
   SocketDestroy \<in> set (trace (connectAndSendInternal deflate_print1 (Some ''print(1)'') ''8392'' None
             [Sock SockConnect, DeflateDone, Sock (SockError ''read ECONNRESET'')])) \<and>
   result (connectAndSendInternal deflate_print1 (Some ''print(1)'') ''8392'' None
             [Sock SockConnect, DeflateDone, Sock (SockError ''read ECONNRESET''), WriteCallback]) =
     Fulfilled ''Successfully executed script on port: 8392'' \<and>
   result (connectAndSendInternal deflate_print1 (Some ''print(1)'') ''8392'' None
             [Sock SockConnect, DeflateDone, Sock (SockError ''read ECONNRESET''), WriteCallback]) \<noteq>
     Fulfilled (failure_report ''8392'' ''read ECONNRESET'')"
  by (simp add: run_defs deflate_print1_def executed_report_def failure_report_def)

text \<open>
  C9. In every run of the send, whatever failure report is resolved, the socket has been
  destroyed earlier in the run. While the connect is outstanding, a socket error, the socket's
  own timeout and the timer of the timeout race each add to the run only the destruction of
  the socket (by the handler and again by the \<open>catch\<close> block for the two socket events, by the
  \<open>catch\<close> block alone for the timer), the error log line and the resolution with the failure
  report. A run without a connect event never calls the codec, never writes and never ends
  the socket gracefully.
\<close>

theorem failed_send_destroys_socket_first:
  "(\<forall>pre r post.
      trace (connectAndSendInternal deflate code port throws evs) = pre @ Resolve r # post \<and>
      startsWith r ''Failed'' \<longrightarrow> SocketDestroy \<in> set pre) \<and>
   (phase (connectAndSendInternal deflate code port throws evs) = AwaitConnect \<longrightarrow>
      trace (connectAndSendInternal deflate code port throws (evs @ [Sock (SockError m)])) =
        trace (connectAndSendInternal deflate code port throws evs) @
          [SocketDestroy, SocketDestroy, ConsoleError (failure_report port m),
           Resolve (failure_report port m)] \<and>
      trace (connectAndSendInternal deflate code port throws (evs @ [Sock SockTimeout])) =
        trace (connectAndSendInternal deflate code port throws evs) @
          [SocketDestroy, SocketDestroy,
           ConsoleError (failure_report port (socket_timeout_message port)),
           Resolve (failure_report port (socket_timeout_message port))] \<and>
      trace (connectAndSendInternal deflate code port throws (evs @ [RaceTimer])) =
        trace (connectAndSendInternal deflate code port throws evs) @
          [SocketDestroy, ConsoleError (failure_report port (race_timeout_message port)),
           Resolve (failure_report port (race_timeout_message port))]) \<and>
   (Sock SockConnect \<notin> set evs \<longrightarrow>
      (\<forall>c. SocketWrite c \<notin> set (trace (connectAndSendInternal deflate code port throws evs))) \<and>
      (\<forall>c. Compress c \<notin> set (trace (connectAndSendInternal deflate code port throws evs))) \<and>
      SocketEnd \<notin> set (trace (connectAndSendInternal deflate code port throws evs)))"
proof -
  let ?s = "connectAndSendInternal deflate code port throws evs"
  have inv: "session_inv ?s" by (rule session_inv_run)
  have first: "SocketDestroy \<in> set pre"
    if "trace ?s = pre @ Resolve r # post" "startsWith r ''Failed''" for pre r post
  proof -
    have "failure_after_destroy False (pre @ Resolve r # post)"
      using failure_after_destroy_run [of deflate code port throws evs] that(1) by simp
    then show ?thesis
      using that(2) by (auto dest: failure_after_destroy_split)
  qed
  have fails: "trace (connectAndSendInternal deflate code port throws (evs @ [Sock (SockError m)])) =
        trace ?s @ [SocketDestroy, SocketDestroy, ConsoleError (failure_report port m),
           Resolve (failure_report port m)] \<and>
      trace (connectAndSendInternal deflate code port throws (evs @ [Sock SockTimeout])) =
        trace ?s @ [SocketDestroy, SocketDestroy,
           ConsoleError (failure_report port (socket_timeout_message port)),
           Resolve (failure_report port (socket_timeout_message port))] \<and>
      trace (connectAndSendInternal deflate code port throws (evs @ [RaceTimer])) =
        trace ?s @ [SocketDestroy, ConsoleError (failure_report port (race_timeout_message port)),
           Resolve (failure_report port (race_timeout_message port))]"
    if "phase ?s = AwaitConnect"
    unfolding run_last
    using inv that race_timer_while_connecting(2) [OF inv that, of deflate code port]
    by (simp add: error_while_connecting socket_timeout_while_connecting timeout_message_run)
  have quiet: "(\<forall>c. SocketWrite c \<notin> set (trace ?s)) \<and> (\<forall>c. Compress c \<notin> set (trace ?s)) \<and>
      SocketEnd \<notin> set (trace ?s)"
    if "Sock SockConnect \<notin> set evs"
  proof -
    have "\<forall>a \<in> set (trace ?s). \<not> transfers a \<and> a \<noteq> SocketEnd"
      using unconnected_run [OF that, of port deflate code throws] by (simp add: unconnected_def)
    then show ?thesis by (auto simp: transfers_iff)
  qed
  from first fails quiet show ?thesis by blast
qed

text \<open>A refused connection on port 8392.\<close>

theorem failed_send_destroys_socket_first_witness:
  "phase (connectAndSendInternal deflate_print1 (Some ''print(1)'') ''8392'' None []) = AwaitConnect \<and>
   Sock SockConnect \<notin> set [Sock (SockError ''connect ECONNREFUSED 127.0.0.1:8392'')] \<and>
   trace (connectAndSendInternal deflate_print1 (Some ''print(1)'') ''8392'' None
            ([] @ [Sock (SockError ''connect ECONNREFUSED 127.0.0.1:8392'')])) =
     [SocketConnect ''8392'' ''127.0.0.1'', SocketSetTimeout 3000, SetTimer 3000,
      SocketDestroy, SocketDestroy,
      ConsoleError ''Failed to connect or send on port 8392: connect ECONNREFUSED 127.0.0.1:8392'',
      Resolve ''Failed to connect or send on port 8392: connect ECONNREFUSED 127.0.0.1:8392''] \<and>
   startsWith ''Failed to connect or send on port 8392: connect ECONNREFUSED 127.0.0.1:8392''
     ''Failed'' \<and>
   SocketDestroy \<in> set [SocketConnect ''8392'' ''127.0.0.1'', SocketSetTimeout 3000, SetTimer 3000,
      SocketDestroy, SocketDestroy,
      ConsoleError ''Failed to connect or send on port 8392: connect ECONNREFUSED 127.0.0.1:8392''] \<and>
   SocketEnd \<notin> set (trace (connectAndSendInternal deflate_print1 (Some ''print(1)'') ''8392'' None
                            [Sock (SockError ''connect ECONNREFUSED 127.0.0.1:8392'')]))"
proof -
  let ?m = "''connect ECONNREFUSED 127.0.0.1:8392''"
  let ?r = "''Failed to connect or send on port 8392: connect ECONNREFUSED 127.0.0.1:8392''"
  let ?pre = "[SocketConnect ''8392'' ''127.0.0.1'', SocketSetTimeout 3000, SetTimer 3000,
      SocketDestroy, SocketDestroy, ConsoleError ?r]"
  have a: "phase (connectAndSendInternal deflate_print1 (Some ''print(1)'') ''8392'' None []) = AwaitConnect"
    by (simp add: run_defs)
  have b: "trace (connectAndSendInternal deflate_print1 (Some ''print(1)'') ''8392'' None []) =
     [SocketConnect ''8392'' ''127.0.0.1'', SocketSetTimeout 3000, SetTimer 3000]"
    by (simp add: run_defs timeoutMs_def)
  have c: "trace (connectAndSendInternal deflate_print1 (Some ''print(1)'') ''8392'' None
            ([] @ [Sock (SockError ?m)])) = ?pre @ Resolve ?r # []"
    using a b
      failed_send_destroys_socket_first [of deflate_print1 "Some ''print(1)''" "''8392''" None "[]" ?m]
    by (simp add: failure_report_def)
  have d: "startsWith ?r ''Failed''"
    by (simp add: startsWith_def)
  have e: "Sock SockConnect \<notin> set [Sock (SockError ?m)]"
    by simp
  have "SocketDestroy \<in> set ?pre"
    using c d
      failed_send_destroys_socket_first [of deflate_print1 "Some ''print(1)''" "''8392''" None
        "[Sock (SockError ?m)]"]
    by simp
  moreover have "SocketEnd \<notin> set (trace (connectAndSendInternal deflate_print1 (Some ''print(1)'')
                            ''8392'' None [Sock (SockError ?m)]))"
    using e
      failed_send_destroys_socket_first [of deflate_print1 "Some ''print(1)''" "''8392''" None
        "[Sock (SockError ?m)]"]
    by blast
  ultimately show ?thesis
    using a c d e by simp
qed

text \<open>
  C7. When the code is absent, the empty string or the string \<open>NULL\<close>, no run of the send
  calls the codec or writes to the socket. While the connect is outstanding, the connect event
  adds to the run only the connection log line, the graceful end of the socket and the
  resolution with the report that no script was sent, and that report stays the result
  whatever is delivered later. The run for such a code is the run for an absent code, and so
  is the run for the string \<open>NULL\<close>: a script consisting of the four bytes \<open>NULL\<close> is handled as
  no script and is never written.
\<close>

theorem sentinel_send_only_connects:
  assumes "code = None \<or> code = Some [] \<or> code = Some ''NULL''"
  shows "(\<forall>c. Compress c \<notin> set (trace (connectAndSendInternal deflate code port throws evs))) \<and>
         (\<forall>c. SocketWrite c \<notin> set (trace (connectAndSendInternal deflate code port throws evs))) \<and>
         (phase (connectAndSendInternal deflate code port throws evs) = AwaitConnect \<longrightarrow>
            trace (connectAndSendInternal deflate code port throws (evs @ [Sock SockConnect])) =
              trace (connectAndSendInternal deflate code port throws evs) @
                [ConsoleLog (connected_log port), SocketEnd, Resolve (no_script_report port)] \<and>
            result (connectAndSendInternal deflate code port throws (evs @ Sock SockConnect # later)) =
              Fulfilled (no_script_report port)) \<and>
         connectAndSendInternal deflate code port throws evs =
           connectAndSendInternal deflate None port throws evs \<and>
         connectAndSendInternal deflate (Some ''NULL'') port throws evs =
           connectAndSendInternal deflate None port throws evs"
proof -
  let ?s = "connectAndSendInternal deflate code port throws evs"
  from assms have np: "\<not> has_payload code" by (auto simp: has_payload_def)
  have np': "\<not> has_payload None" "\<not> has_payload (Some ''NULL'')"
    by (simp_all add: has_payload_def)
  have inv: "session_inv ?s" by (rule session_inv_run)
  have "\<forall>a \<in> set (trace ?s). \<not> transfers a"
    using silent_run [OF np, of port deflate throws evs] by (simp add: silent_def)
  then have quiet: "(\<forall>c. Compress c \<notin> set (trace ?s)) \<and> (\<forall>c. SocketWrite c \<notin> set (trace ?s))"
    by (auto simp: transfers_iff)
  have connects: "trace (connectAndSendInternal deflate code port throws (evs @ [Sock SockConnect])) =
        trace ?s @ [ConsoleLog (connected_log port), SocketEnd, Resolve (no_script_report port)] \<and>
      result (connectAndSendInternal deflate code port throws (evs @ Sock SockConnect # later)) =
        Fulfilled (no_script_report port)"
    if "phase ?s = AwaitConnect"
  proof -
    from inv that have pending: "result ?s = Pending" by (auto simp: session_inv_def)
    have step: "on_event deflate code port ?s (Sock SockConnect) =
        no_script port
          (?s\<lparr>connect_cb := False, trace := trace ?s @ [ConsoleLog (connected_log port)],
              connecting := Fulfilled (), race := operation_settles (Fulfilled ()) (race ?s)\<rparr>)"
      using connect_while_connecting [OF inv that] by (simp add: after_connect_sentinel [OF np])
    have r: "result (on_event deflate code port ?s (Sock SockConnect)) = Fulfilled (no_script_report port)"
      unfolding step using pending by (simp add: no_script_def)
    have t: "trace (on_event deflate code port ?s (Sock SockConnect)) =
        trace ?s @ [ConsoleLog (connected_log port), SocketEnd, Resolve (no_script_report port)]"
      unfolding step by (simp add: no_script_def)
    from r t inv show ?thesis
      unfolding run_snoc run_last by (simp add: settled_for_good)
  qed
  have same: "connectAndSendInternal deflate code port throws evs =
           connectAndSendInternal deflate None port throws evs"
    using np np'(1) by (rule sentinel_run_same)
  have same': "connectAndSendInternal deflate (Some ''NULL'') port throws evs =
           connectAndSendInternal deflate None port throws evs"
    using np'(2) np'(1) by (rule sentinel_run_same)
  from quiet connects same same' show ?thesis by blast
qed

text \<open>The probe made by the scan: the string \<open>NULL\<close> sent to a listening port 8392.\<close>

theorem sentinel_send_only_connects_witness:
  "(Some ''NULL'' = None \<or> Some ''NULL'' = Some [] \<or> Some ''NULL'' = Some ''NULL'') \<and>
   phase (connectAndSendInternal deflate_print1 (Some ''NULL'') ''8392'' None []) = AwaitConnect \<and>
   trace (connectAndSendInternal deflate_print1 (Some ''NULL'') ''8392'' None ([] @ [Sock SockConnect])) =
     [SocketConnect ''8392'' ''127.0.0.1'', SocketSetTimeout 3000, SetTimer 3000,
      ConsoleLog ''Successfully connected to Opiumware on port: 8392'', SocketEnd,
      Resolve ''Successfully connected to Opiumware on port: 8392 (no script sent)''] \<and>
   result (connectAndSendInternal deflate_print1 (Some ''NULL'') ''8392'' None
             ([] @ Sock SockConnect # [WriteCallback])) =
     Fulfilled ''Successfully connected to Opiumware on port: 8392 (no script sent)''"
proof -
  have a: "phase (connectAndSendInternal deflate_print1 (Some ''NULL'') ''8392'' None []) = AwaitConnect"
    by (simp add: run_defs)
  have b: "trace (connectAndSendInternal deflate_print1 (Some ''NULL'') ''8392'' None []) =
     [SocketConnect ''8392'' ''127.0.0.1'', SocketSetTimeout 3000, SetTimer 3000]"
    by (simp add: run_defs timeoutMs_def)
  have c: "Some ''NULL'' = None \<or> Some ''NULL'' = Some [] \<or> Some ''NULL'' = Some ''NULL''"
    by simp
  show ?thesis
    using a b
      sentinel_send_only_connects [OF c, of deflate_print1 "''8392''" None "[]" "[WriteCallback]"]
    by (simp add: no_script_report_def connected_log_def)
qed

subsection \<open>A send with a payload\<close>

lemma deflate_done_moves_on:
  assumes "phase s = AwaitDeflate data"
  shows "(\<exists>c. phase (on_event deflate code port s DeflateDone) = AwaitWrite c) \<or>
         phase (on_event deflate code port s DeflateDone) = Done"
  using assms
  by (cases "deflate data") (simp_all add: on_event_def compressData_def catch_error_def)

text \<open>
  C5 (as amended). When the write of a compressed payload is outstanding, those bytes have
  been written to the socket, and the write callback makes the send resolve with the report
  \<open>Successfully executed script on port: <port>\<close>, which stays the result whatever is
  delivered later. That report names the port and nothing else; the number of bytes sent
  appears only in the log line \<open>Script sent to port <port> (<n> bytes)\<close>, written just before
  the socket is ended and the promise resolved.
\<close>

theorem flushed_send_reports_port:
  "phase (connectAndSendInternal deflate code port throws evs) = AwaitWrite compressed \<longrightarrow>
     SocketWrite compressed \<in> set (trace (connectAndSendInternal deflate code port throws evs)) \<and>
     result (connectAndSendInternal deflate code port throws (evs @ WriteCallback # later)) =
       Fulfilled (''Successfully executed script on port: '' @ port) \<and>
     trace (connectAndSendInternal deflate code port throws (evs @ [WriteCallback])) =
       trace (connectAndSendInternal deflate code port throws evs) @
         [ConsoleLog (''Script sent to port '' @ port @ '' ('' @ show_nat (length compressed) @
                      '' bytes)''),
          SocketEnd, Resolve (''Successfully executed script on port: '' @ port)]"
proof
  let ?s = "connectAndSendInternal deflate code port throws evs"
  assume w: "phase ?s = AwaitWrite compressed"
  have inv: "session_inv ?s" by (rule session_inv_run)
  from inv w have "SocketWrite compressed \<in> set (trace ?s)"
    by (simp add: session_inv_def)
  moreover have "result (connectAndSendInternal deflate code port throws (evs @ WriteCallback # later)) =
       Fulfilled (executed_report port)"
    unfolding run_snoc using inv w by (simp add: settled_for_good write_flushed)
  moreover have "trace (connectAndSendInternal deflate code port throws (evs @ [WriteCallback])) =
       trace ?s @ [ConsoleLog (sent_log port compressed), SocketEnd, Resolve (executed_report port)]"
    unfolding run_last using inv w by (simp add: write_flushed)
  ultimately show "SocketWrite compressed \<in> set (trace ?s) \<and>
     result (connectAndSendInternal deflate code port throws (evs @ WriteCallback # later)) =
       Fulfilled (''Successfully executed script on port: '' @ port) \<and>
     trace (connectAndSendInternal deflate code port throws (evs @ [WriteCallback])) =
       trace ?s @
         [ConsoleLog (''Script sent to port '' @ port @ '' ('' @ show_nat (length compressed) @
                      '' bytes)''),
          SocketEnd, Resolve (''Successfully executed script on port: '' @ port)]"
    by (simp add: executed_report_def sent_log_def)
qed

lemma print1_awaits_write:
  "phase (connectAndSendInternal deflate_print1 (Some ''print(1)'') ''8392'' None
            [Sock SockConnect, DeflateDone]) = AwaitWrite zlib_print1"
  by (simp add: run_defs deflate_print1_def)

text \<open>The script \<open>print(1)\<close> sent to a listening port 8392.\<close>

theorem flushed_send_reports_port_witness:
  "phase (connectAndSendInternal deflate_print1 (Some ''print(1)'') ''8392'' None
            [Sock SockConnect, DeflateDone]) = AwaitWrite zlib_print1 \<and>
   result (connectAndSendInternal deflate_print1 (Some ''print(1)'') ''8392'' None
             ([Sock SockConnect, DeflateDone] @ WriteCallback # [RaceTimer])) =
     Fulfilled ''Successfully executed script on port: 8392''"
  using print1_awaits_write
    flushed_send_reports_port [of deflate_print1 "Some ''print(1)''" "''8392''" None
      "[Sock SockConnect, DeflateDone]" zlib_print1 "[RaceTimer]"]
  by simp

text \<open>
  The same send, with the 16 bytes zlib gives for \<open>print(1)\<close>: they are written, and the
  report resolved does not contain the number 16.
\<close>

theorem flushed_send_report_lacks_byte_count:
  "result (connectAndSendInternal deflate_print1 (Some ''print(1)'') ''8392'' None
             [Sock SockConnect, DeflateDone, WriteCallback]) =
     Fulfilled ''Successfully executed script on port: 8392'' \<and>
   SocketWrite zlib_print1 \<in> set (trace (connectAndSendInternal deflate_print1 (Some ''print(1)'')
             ''8392'' None [Sock SockConnect, DeflateDone, WriteCallback])) \<and>
   show_nat (length zlib_print1) = ''16'' \<and>
   \<not> sublist (show_nat (length zlib_print1)) ''Successfully executed script on port: 8392''"
proof -
  have "show_nat (length zlib_print1) = ''16''"
    by (simp add: zlib_print1_def digit_def)
  moreover have "\<not> sublist ''16'' ''Successfully executed script on port: 8392''"
    by (simp add: sublist_Cons_right prefix_Cons)
  moreover have "result (connectAndSendInternal deflate_print1 (Some ''print(1)'') ''8392'' None
             [Sock SockConnect, DeflateDone, WriteCallback]) =
     Fulfilled ''Successfully executed script on port: 8392''"
    by (simp add: run_defs deflate_print1_def executed_report_def)
  moreover have "SocketWrite zlib_print1 \<in> set (trace (connectAndSendInternal deflate_print1
             (Some ''print(1)'') ''8392'' None [Sock SockConnect, DeflateDone, WriteCallback]))"
    by (simp add: run_defs deflate_print1_def)
  ultimately show ?thesis by simp
qed

text \<open>
  C3 (as amended). A send arms the socket timeout and the timer of the timeout race with
  3000 ms, and these bound the wait for the connect: once any socket event or the timer has
  been delivered the send no longer waits for the connect. Once the timer has fired, a send
  without payload has resolved, and a send to a port where no connect event occurs has
  resolved with a failure report. With a payload the send then waits for the codec and for the
  write callback, which no timer covers: it moves on when the codec calls back, and it
  resolves when the write callback is delivered. The send is over exactly when its promise is
  resolved.
\<close>

theorem send_connect_wait_is_bounded:
  "(ev \<in> set evs \<and> ev \<noteq> DeflateDone \<and> ev \<noteq> WriteCallback \<longrightarrow>
      phase (connectAndSendInternal deflate code port throws evs) \<noteq> AwaitConnect) \<and>
   (RaceTimer \<in> set evs \<and> (code = None \<or> code = Some [] \<or> code = Some ''NULL'') \<longrightarrow>
      result (connectAndSendInternal deflate code port throws evs) \<noteq> Pending) \<and>
   (RaceTimer \<in> set evs \<and> Sock SockConnect \<notin> set evs \<longrightarrow>
      (\<exists>m. result (connectAndSendInternal deflate code port throws evs) =
            Fulfilled (failure_report port m))) \<and>
   (phase (connectAndSendInternal deflate code port throws evs) = AwaitDeflate data \<longrightarrow>
      (\<exists>c. phase (connectAndSendInternal deflate code port throws (evs @ [DeflateDone])) =
            AwaitWrite c) \<or>
      phase (connectAndSendInternal deflate code port throws (evs @ [DeflateDone])) = Done) \<and>
   (phase (connectAndSendInternal deflate code port throws evs) = AwaitWrite compressed \<longrightarrow>
      result (connectAndSendInternal deflate code port throws (evs @ WriteCallback # later)) \<noteq>
        Pending) \<and>
   ((phase (connectAndSendInternal deflate code port throws evs) = Done) =
      (result (connectAndSendInternal deflate code port throws evs) \<noteq> Pending)) \<and>
   take 3 (trace (connectAndSendInternal deflate code port None evs)) =
     [SocketConnect port ''127.0.0.1'', SocketSetTimeout 3000, SetTimer 3000]"
proof -
  let ?s = "connectAndSendInternal deflate code port throws evs"
  have inv: "session_inv ?s" by (rule session_inv_run)
  have ends: "phase ?s \<noteq> AwaitConnect"
    if "ev \<in> set evs" "ev \<noteq> DeflateDone" "ev \<noteq> WriteCallback"
    using that by (rule decisive_event_ends_connect)
  have timer: "phase ?s \<noteq> AwaitConnect" if "RaceTimer \<in> set evs"
    using that by (rule decisive_event_ends_connect) simp_all
  have sentinel: "result ?s \<noteq> Pending"
    if "RaceTimer \<in> set evs" "code = None \<or> code = Some [] \<or> code = Some ''NULL''"
  proof -
    from that(2) have "\<not> has_payload code" by (auto simp: has_payload_def)
    then have "phase ?s = AwaitConnect \<or> phase ?s = Done"
      using silent_run [of code port deflate throws evs] by (simp add: silent_def)
    with timer [OF that(1)] have "phase ?s = Done" by simp
    with inv show ?thesis by (simp add: session_inv_def)
  qed
  have nobody: "\<exists>m. result ?s = Fulfilled (failure_report port m)"
    if "RaceTimer \<in> set evs" "Sock SockConnect \<notin> set evs"
  proof -
    have u: "unconnected port ?s" using that(2) by (rule unconnected_run)
    with timer [OF that(1)] have "phase ?s = Done" by (auto simp: unconnected_def)
    with inv have "result ?s \<noteq> Pending" by (simp add: session_inv_def)
    with u show ?thesis by (auto simp: unconnected_def)
  qed
  have codec: "(\<exists>c. phase (connectAndSendInternal deflate code port throws (evs @ [DeflateDone])) =
            AwaitWrite c) \<or>
      phase (connectAndSendInternal deflate code port throws (evs @ [DeflateDone])) = Done"
    if "phase ?s = AwaitDeflate data"
    unfolding run_last using that by (rule deflate_done_moves_on)
  have flush: "result (connectAndSendInternal deflate code port throws (evs @ WriteCallback # later)) \<noteq>
        Pending"
    if "phase ?s = AwaitWrite compressed"
    unfolding run_snoc using inv that by (simp add: settled_for_good write_flushed)
  have over: "(phase ?s = Done) = (result ?s \<noteq> Pending)"
    using inv by (simp add: session_inv_def)
  from ends sentinel nobody codec flush over
  have "(ev \<in> set evs \<and> ev \<noteq> DeflateDone \<and> ev \<noteq> WriteCallback \<longrightarrow> phase ?s \<noteq> AwaitConnect) \<and>
   (RaceTimer \<in> set evs \<and> (code = None \<or> code = Some [] \<or> code = Some ''NULL'') \<longrightarrow>
      result ?s \<noteq> Pending) \<and>
   (RaceTimer \<in> set evs \<and> Sock SockConnect \<notin> set evs \<longrightarrow>
      (\<exists>m. result ?s = Fulfilled (failure_report port m))) \<and>
   (phase ?s = AwaitDeflate data \<longrightarrow>
      (\<exists>c. phase (connectAndSendInternal deflate code port throws (evs @ [DeflateDone])) =
            AwaitWrite c) \<or>
      phase (connectAndSendInternal deflate code port throws (evs @ [DeflateDone])) = Done) \<and>
   (phase ?s = AwaitWrite compressed \<longrightarrow>
      result (connectAndSendInternal deflate code port throws (evs @ WriteCallback # later)) \<noteq>
        Pending) \<and>
   ((phase ?s = Done) = (result ?s \<noteq> Pending))"
    by blast
  then show ?thesis
    by (simp add: trace_start)
qed

lemma print1_awaits_codec:
  "phase (connectAndSendInternal deflate_print1 (Some ''print(1)'') ''8392'' None [Sock SockConnect]) =
   AwaitDeflate ''print(1)''"
  by (simp add: run_defs)

text \<open>
  A refused connection on port 8392 for a send without payload, and the script \<open>print(1)\<close>
  sent to a listening port 8392.
\<close>

theorem send_connect_wait_is_bounded_witness:
  "RaceTimer \<in> set [Sock (SockError ''connect ECONNREFUSED 127.0.0.1:8392''), RaceTimer] \<and>
   Sock SockConnect \<notin> set [Sock (SockError ''connect ECONNREFUSED 127.0.0.1:8392''), RaceTimer] \<and>
   result (connectAndSendInternal deflate_print1 (Some ''NULL'') ''8392'' None
             [Sock (SockError ''connect ECONNREFUSED 127.0.0.1:8392''), RaceTimer]) \<noteq> Pending \<and>
   phase (connectAndSendInternal deflate_print1 (Some ''NULL'') ''8392'' None
            [Sock (SockError ''connect ECONNREFUSED 127.0.0.1:8392''), RaceTimer]) = Done \<and>
   phase (connectAndSendInternal deflate_print1 (Some ''print(1)'') ''8392'' None [Sock SockConnect]) =
     AwaitDeflate ''print(1)'' \<and>
   phase (connectAndSendInternal deflate_print1 (Some ''print(1)'') ''8392'' None
            ([Sock SockConnect] @ [DeflateDone])) \<noteq> AwaitDeflate ''print(1)'' \<and>
   phase (connectAndSendInternal deflate_print1 (Some ''print(1)'') ''8392'' None
            [Sock SockConnect, DeflateDone]) = AwaitWrite zlib_print1 \<and>
   result (connectAndSendInternal deflate_print1 (Some ''print(1)'') ''8392'' None
             ([Sock SockConnect, DeflateDone] @ WriteCallback # [RaceTimer])) \<noteq> Pending"
proof -
  have "result (connectAndSendInternal deflate_print1 (Some ''NULL'') ''8392'' None
             [Sock (SockError ''connect ECONNREFUSED 127.0.0.1:8392''), RaceTimer]) \<noteq> Pending \<and>
   phase (connectAndSendInternal deflate_print1 (Some ''NULL'') ''8392'' None
            [Sock (SockError ''connect ECONNREFUSED 127.0.0.1:8392''), RaceTimer]) = Done"
    using send_connect_wait_is_bounded [of RaceTimer
        "[Sock (SockError ''connect ECONNREFUSED 127.0.0.1:8392''), RaceTimer]"
        deflate_print1 "Some ''NULL''" "''8392''" None]
    by simp
  moreover have "phase (connectAndSendInternal deflate_print1 (Some ''print(1)'') ''8392'' None
            ([Sock SockConnect] @ [DeflateDone])) \<noteq> AwaitDeflate ''print(1)''"
    using print1_awaits_codec
      send_connect_wait_is_bounded [of _ "[Sock SockConnect]" deflate_print1 "Some ''print(1)''"
        "''8392''" None "''print(1)''"]
    by auto
  moreover have "result (connectAndSendInternal deflate_print1 (Some ''print(1)'') ''8392'' None
             ([Sock SockConnect, DeflateDone] @ WriteCallback # [RaceTimer])) \<noteq> Pending"
    using print1_awaits_write
      send_connect_wait_is_bounded [of _ "[Sock SockConnect, DeflateDone]" deflate_print1
        "Some ''print(1)''" "''8392''" None _ zlib_print1 "[RaceTimer]"]
    by simp
  ultimately show ?thesis
    using print1_awaits_codec print1_awaits_write by simp
qed

text \<open>
  The script \<open>print(1)\<close> sent to a listening port 8392: the connection is made, the codec
  has called back and the bytes are handed to the socket when the timer of the race fires.
  The send is still waiting for the write callback and has not resolved.
\<close>

theorem send_write_wait_outlasts_budget:
  "RaceTimer \<in> set [Sock SockConnect, DeflateDone, RaceTimer] \<and>
   result (connectAndSendInternal deflate_print1 (Some ''print(1)'') ''8392'' None
             [Sock SockConnect, DeflateDone, RaceTimer]) = Pending \<and>
   phase (connectAndSendInternal deflate_print1 (Some ''print(1)'') ''8392'' None
            [Sock SockConnect, DeflateDone, RaceTimer]) = AwaitWrite zlib_print1"
  by (simp add: run_defs deflate_print1_def)

subsection \<open>The attempts of the scan\<close>

lemma sentinel_payload [simp]: "\<not> has_payload (Some ''NULL'')"
  by (simp add: has_payload_def)

lemma attempt_outcomes:
  "attempt deflate rt p = Pending \<or> attempt deflate rt p = Fulfilled (no_script_report p) \<or>
   (\<exists>m. attempt deflate rt p = Fulfilled (failure_report p m))"
  using silent_run [of "Some ''NULL''" p deflate "fst (rt p)" "snd (rt p)"]
  by (simp add: silent_def attempt_def)

lemma attempt_settles:
  assumes "RaceTimer \<in> set (snd (rt p))"
  shows "attempt deflate rt p \<noteq> Pending"
proof -
  let ?s = "connectAndSendInternal deflate (Some ''NULL'') p (fst (rt p)) (snd (rt p))"
  have "phase ?s \<noteq> AwaitConnect"
    using assms by (rule decisive_event_ends_connect) simp_all
  moreover have "phase ?s = AwaitConnect \<or> phase ?s = Done"
    using silent_run [of "Some ''NULL''" p deflate "fst (rt p)" "snd (rt p)"]
    by (simp add: silent_def)
  ultimately have "phase ?s = Done" by simp
  moreover have "session_inv ?s" by (rule session_inv_run)
  ultimately show ?thesis by (simp add: session_inv_def attempt_def)
qed

lemma accepted_attempt:
  "accepted (\<lambda>code port. result (connectAndSendInternal deflate (Some code) port
                                   (fst (rt port)) (snd (rt port)))) p \<longleftrightarrow>
   attempt deflate rt p = Fulfilled (no_script_report p)"
proof -
  have "accepted (\<lambda>code port. result (connectAndSendInternal deflate (Some code) port
                                   (fst (rt port)) (snd (rt port)))) p =
        (case attempt deflate rt p of
           Pending \<Rightarrow> False
         | Fulfilled r \<Rightarrow> startsWith r ''Successfully connected''
         | Rejected e \<Rightarrow> False)"
    by (simp add: accepted_def attempt_def)
  with attempt_outcomes [of deflate rt p] show ?thesis by auto
qed

lemma sentinel_not_a_port:
  "''Failed to connect on all ports'' \<notin> set PORTS"
  "\<not> port_string ''Failed to connect on all ports''"
  "list_all port_string PORTS"
  by (simp_all add: PORTS_def port_string_def)

text \<open>
  C1. The candidate ports are 8392 to 8397 in that order. When the timer of every attempt
  fires, the scan calls the send with the string \<open>NULL\<close> on the ports in list order, one after
  the other, up to and including the first port whose attempt resolves with the report that
  a connection was made, and returns that port; when no attempt does, it calls the send on
  all six and returns \<open>Failed to connect on all ports\<close>. That string is not a candidate port
  and is not a string of digits, as every candidate port is.
\<close>

theorem auto_attach_returns_first_live_port:
  assumes "\<forall>port \<in> set PORTS. RaceTimer \<in> set (snd (rt port))"
  shows "PORTS = [''8392'', ''8393'', ''8394'', ''8395'', ''8396'', ''8397''] \<and>
         auto_attach deflate rt =
           (case find (\<lambda>p. attempt deflate rt p = Fulfilled (no_script_report p)) PORTS of
              Some p \<Rightarrow>
                (map (Pair ''NULL'')
                   (takeWhile (\<lambda>q. attempt deflate rt q \<noteq> Fulfilled (no_script_report q)) PORTS @ [p]),
                 Some p)
            | None \<Rightarrow> (map (Pair ''NULL'') PORTS, Some ''Failed to connect on all ports'')) \<and>
         ''Failed to connect on all ports'' \<notin> set PORTS \<and>
         \<not> port_string ''Failed to connect on all ports'' \<and>
         list_all port_string PORTS"
proof -
  let ?send = "\<lambda>code port. result (connectAndSendInternal deflate (Some code) port
                                   (fst (rt port)) (snd (rt port)))"
  have "\<forall>p \<in> set PORTS. ?send ''NULL'' p \<noteq> Pending"
    using assms attempt_settles [of rt _ deflate] by (simp add: attempt_def)
  then have "auto_attach_loop ?send PORTS =
         (case find (accepted ?send) PORTS of
            None \<Rightarrow> (map (Pair ''NULL'') PORTS, Some ''Failed to connect on all ports'')
          | Some p \<Rightarrow>
              (map (Pair ''NULL'') (takeWhile (\<lambda>q. \<not> accepted ?send q) PORTS @ [p]), Some p))"
    by (rule auto_attach_loop_settled)
  moreover have "accepted ?send = (\<lambda>p. attempt deflate rt p = Fulfilled (no_script_report p))"
    by (intro ext) (rule accepted_attempt)
  ultimately have "auto_attach deflate rt =
           (case find (\<lambda>p. attempt deflate rt p = Fulfilled (no_script_report p)) PORTS of
              Some p \<Rightarrow>
                (map (Pair ''NULL'')
                   (takeWhile (\<lambda>q. attempt deflate rt q \<noteq> Fulfilled (no_script_report q)) PORTS @ [p]),
                 Some p)
            | None \<Rightarrow> (map (Pair ''NULL'') PORTS, Some ''Failed to connect on all ports''))"
    by (simp add: auto_attach_def split: option.splits)
  then show ?thesis
    by (simp add: sentinel_not_a_port) (simp add: PORTS_def)
qed

lemma refused_attempt:
  "result (connectAndSendInternal deflate (Some ''NULL'') port None
             [Sock (SockError m), RaceTimer]) = Fulfilled (failure_report port m)"
  by (simp add: run_defs)

lemma live_attempt:
  "result (connectAndSendInternal deflate (Some ''NULL'') port None [Sock SockConnect, RaceTimer]) =
   Fulfilled (no_script_report port)"
  by (simp add: run_defs)

lemma sample_attempts:
  "attempt deflate_print1 only_8395_listens ''8392'' =
     Fulfilled (failure_report ''8392'' ''connect ECONNREFUSED'')"
  "attempt deflate_print1 only_8395_listens ''8393'' =
     Fulfilled (failure_report ''8393'' ''connect ECONNREFUSED'')"
  "attempt deflate_print1 only_8395_listens ''8394'' =
     Fulfilled (failure_report ''8394'' ''connect ECONNREFUSED'')"
  "attempt deflate_print1 only_8395_listens ''8395'' = Fulfilled (no_script_report ''8395'')"
  by (simp_all add: attempt_def only_8395_listens_def refused_attempt live_attempt)

lemma sample_timers: "\<forall>port \<in> set PORTS. RaceTimer \<in> set (snd (only_8395_listens port))"
  by (simp add: only_8395_listens_def)

lemma failure_is_not_no_script [simp]: "failure_report p m \<noteq> no_script_report p'"
  using no_script_not_failure_report [of p' p m] by (rule not_sym)

lemma sample_find:
  "find (\<lambda>p. attempt deflate_print1 only_8395_listens p = Fulfilled (no_script_report p)) PORTS =
   Some ''8395''"
  by (simp add: PORTS_def sample_attempts)

lemma sample_takeWhile:
  "takeWhile (\<lambda>q. attempt deflate_print1 only_8395_listens q \<noteq> Fulfilled (no_script_report q)) PORTS =
   [''8392'', ''8393'', ''8394'']"
  by (simp add: PORTS_def sample_attempts)

text \<open>Only port 8395 has a listener; the other connections are refused.\<close>

theorem auto_attach_returns_first_live_port_witness:
  "list_all (\<lambda>port. RaceTimer \<in> set (snd (only_8395_listens port))) PORTS \<and>
   auto_attach deflate_print1 only_8395_listens =
     ([(''NULL'', ''8392''), (''NULL'', ''8393''), (''NULL'', ''8394''), (''NULL'', ''8395'')],
      Some ''8395'')"
  using sample_timers auto_attach_returns_first_live_port [OF sample_timers, of deflate_print1]
  by (simp add: sample_find sample_takeWhile list_all_iff)

subsection \<open>The trace of a probe\<close>

lemma probe_trace_grows_step: "prefix (probe_trace p) (probe_trace (probe_event p ev))"
  by (cases ev) (simp_all add: probe_event_def probe_settle_def)

lemma probe_trace_grows: "prefix (probe_trace p) (probe_trace (foldl probe_event p evs))"
proof (induction evs arbitrary: p)
  case Nil
  then show ?case by simp
next
  case (Cons ev evs)
  have "prefix (probe_trace p) (probe_trace (probe_event p ev))"
    by (rule probe_trace_grows_step)
  also have "prefix (probe_trace (probe_event p ev))
               (probe_trace (foldl probe_event (probe_event p ev) evs))"
    by (rule Cons.IH)
  finally show ?case by simp
qed

lemma probe_trace_start:
  "take 2 (probe_trace (check_port_status port None evs)) =
   [SocketConnect port ''127.0.0.1'', SocketSetTimeout 1000]"
proof -
  have "prefix (probe_trace (begin_probe port None)) (probe_trace (check_port_status port None evs))"
    unfolding check_port_status_def by (rule probe_trace_grows)
  then obtain more where "probe_trace (check_port_status port None evs) =
      [SocketConnect port ''127.0.0.1'', SocketSetTimeout 1000] @ more"
    by (auto simp: prefix_def begin_probe_def)
  then show ?thesis by simp
qed

lemma probe_true_iff:
  "answer (check_port_status port throws evs) = Fulfilled True \<longleftrightarrow>
   throws = None \<and> (\<exists>rest. evs = SockConnect # rest)"
proof (cases throws)
  case None
  then show ?thesis
    by (auto simp: probe_answer split: list.splits sock_event.splits)
next
  case (Some m)
  then show ?thesis by (simp add: probe_rejected)
qed

text \<open>
  A probe whose connect call is accepted. When the connect call of the probe is accepted, the first socket event decides the
  answer: \<open>true\<close> when it is the connect, \<open>false\<close> when it is an error or the socket timeout,
  and no answer before any event. For every call the answer is \<open>true\<close> exactly when the connect
  call was accepted and the connect came first. The probe connects to 127.0.0.1 on the port
  and sets the socket timeout to 1000 ms; on the connect it destroys the socket and resolves;
  it never writes and never ends the socket gracefully. Replacing the message of every error
  event by the empty string changes nothing in the run, so the cause of an error is not
  visible to the caller.
\<close>

theorem check_port_status_first_event_decides:
  "answer (check_port_status port None evs) =
     (case evs of
        [] \<Rightarrow> Pending
      | SockConnect # rest \<Rightarrow> Fulfilled True
      | SockError m # rest \<Rightarrow> Fulfilled False
      | SockTimeout # rest \<Rightarrow> Fulfilled False) \<and>
   (answer (check_port_status port throws evs) = Fulfilled True \<longleftrightarrow>
      throws = None \<and> (\<exists>rest. evs = SockConnect # rest)) \<and>
   take 2 (probe_trace (check_port_status port None evs)) =
     [SocketConnect port ''127.0.0.1'', SocketSetTimeout 1000] \<and>
   probe_trace (check_port_status port None [SockConnect]) =
     [SocketConnect port ''127.0.0.1'', SocketSetTimeout 1000, SocketDestroy, ResolveBool True] \<and>
   (\<forall>c. SocketWrite c \<notin> set (probe_trace (check_port_status port throws evs))) \<and>
   SocketEnd \<notin> set (probe_trace (check_port_status port throws evs)) \<and>
   check_port_status port throws (map forget_cause evs) = check_port_status port throws evs"
proof -
  have acts: "list_all (probe_action port) (probe_trace (check_port_status port throws evs))"
    by (rule probe_actions)
  have "\<forall>c. SocketWrite c \<notin> set (probe_trace (check_port_status port throws evs))"
    using acts by (auto simp: list_all_iff probe_action_def)
  moreover have "SocketEnd \<notin> set (probe_trace (check_port_status port throws evs))"
    using acts by (auto simp: list_all_iff probe_action_def)
  moreover have "probe_trace (check_port_status port None [SockConnect]) =
     [SocketConnect port ''127.0.0.1'', SocketSetTimeout 1000, SocketDestroy, ResolveBool True]"
    by (simp add: check_port_status_def begin_probe_def probe_event_def probe_settle_def)
  ultimately show ?thesis
    using probe_answer [of port evs] probe_true_iff [of port throws evs]
      probe_trace_start [of port evs] probe_forget [of port throws evs]
    by simp
qed

text \<open>A listening port, a refused connection, and a port that does not answer in time.\<close>

theorem check_port_status_first_event_decides_witness:
  "answer (check_port_status ''8392'' None [SockConnect, SockTimeout]) = Fulfilled True \<and>
   answer (check_port_status ''8392'' None [SockError ''connect ECONNREFUSED 127.0.0.1:8392'']) =
     Fulfilled False \<and>
   answer (check_port_status ''8392'' None [SockTimeout, SockConnect]) = Fulfilled False \<and>
   check_port_status ''8392'' None (map forget_cause [SockError ''connect ECONNREFUSED 127.0.0.1:8392'']) =
     check_port_status ''8392'' None [SockError ''connect ECONNREFUSED 127.0.0.1:8392'']"
  using check_port_status_first_event_decides [of "''8392''" "[SockConnect, SockTimeout]" None]
    check_port_status_first_event_decides
      [of "''8392''" "[SockError ''connect ECONNREFUSED 127.0.0.1:8392'']" None]
    check_port_status_first_event_decides [of "''8392''" "[SockTimeout, SockConnect]" None]
  by simp

text \<open>
  C8. The claim is that the probe resolves \<open>false\<close> on any failure to connect and never
  shows the cause of the error to the caller. This run is the call for port 99999, which the
  connect call refuses with an exception: the answer is not \<open>false\<close> but a rejection that
  carries the message of the exception, and the 1000 ms socket timeout is never set.
\<close>

theorem check_port_status_exposes_thrown_error:
  "answer (check_port_status ''99999'' (Some ''Port should be >= 0 and < 65536'') []) \<noteq>
     Fulfilled False \<and>
   answer (check_port_status ''99999'' (Some ''Port should be >= 0 and < 65536'') []) =
     Rejected ''Port should be >= 0 and < 65536'' \<and>
   SocketSetTimeout 1000 \<notin> set (probe_trace
      (check_port_status ''99999'' (Some ''Port should be >= 0 and < 65536'') []))"
  by (simp add: check_port_status_def begin_probe_def)

text \<open>
  C10. The claim is that every call of the probe settles with a boolean and is never
  rejected. This run is the call for port 99999, which the connect call refuses with an
  exception: the promise is rejected with that exception's message and no boolean is ever
  resolved.
\<close>

theorem check_port_status_rejects_when_connect_throws:
  "answer (check_port_status ''99999'' (Some ''Port should be >= 0 and < 65536'') []) =
     Rejected ''Port should be >= 0 and < 65536'' \<and>
   ResolveBool True \<notin> set (probe_trace
      (check_port_status ''99999'' (Some ''Port should be >= 0 and < 65536'') [])) \<and>
   ResolveBool False \<notin> set (probe_trace
      (check_port_status ''99999'' (Some ''Port should be >= 0 and < 65536'') []))"
  by (simp add: check_port_status_def begin_probe_def)

subsection \<open>The timeout race\<close>

lemma race_first_event_wins:
  "raced (foldl race_step (promiseTimeout Pending ms msg) (TimerFires # es)) = Rejected msg"
  "outcome \<noteq> Pending \<Longrightarrow>
   raced (foldl race_step (promiseTimeout Pending ms msg) (OperationSettles outcome # es)) = outcome"
  by (simp_all add: raced_stable promiseTimeout_def timer_fires_def operation_settles_def)

lemma race_timer_survives_operation:
  "TimerFires \<notin> set es \<Longrightarrow> timer_pending (foldl race_step (promiseTimeout p ms msg) es)"
  by (simp add: timer_pending_until_fired promiseTimeout_def)

text \<open>
  C6. The claim is that the timer of the timeout race is cancelled when the wrapped
  operation completes. This run is a race whose operation is fulfilled before the timer fires:
  the race is fulfilled and the timer is still pending. The same holds inside a send: after
  a probe of a listening port 8392 has resolved with its success report, the timer of its
  race is still pending.
\<close>

theorem promiseTimeout_leaves_timer_pending:
  "timer_pending (race_step (promiseTimeout (Pending :: unit promise) 3000
                    ''Connection to port 8392 timed out'') (OperationSettles (Fulfilled ()))) \<and>
   raced (race_step (promiseTimeout (Pending :: unit promise) 3000
            ''Connection to port 8392 timed out'') (OperationSettles (Fulfilled ()))) = Fulfilled () \<and>
   timer_pending (race (connectAndSendInternal deflate_print1 (Some ''NULL'') ''8392'' None
                          [Sock SockConnect])) \<and>
   result (connectAndSendInternal deflate_print1 (Some ''NULL'') ''8392'' None [Sock SockConnect]) =
     Fulfilled ''Successfully connected to Opiumware on port: 8392 (no script sent)''"
  by (simp add: run_defs no_script_report_def)

end
